theory Spec2Isabelle
  imports Complex_Main
begin

section \<open>Project planning: the catalogue, the planner object and its operations\<close>

text \<open>
  The development follows \<^verbatim>\<open>ProjectPlanning.py\<close>: the classes \<^verbatim>\<open>Projects\<close> and
  \<^verbatim>\<open>Projects_Planner\<close>. Python floats are represented by rationals (exact
  arithmetic), Python and numpy exceptions by the values of \<open>error\<close>, and the
  attributes of \<^verbatim>\<open>self\<close> by the fields of the record \<open>planner\<close>; a method
  returns its outcome together with the planner as the method left it, so that
  what an exception leaves behind is visible.
\<close>

subsection \<open>Errors and Python indexing\<close>

datatype error =
    IndexError | KeyError | NameError | ValueError | AssertionError | ZeroDivisionError

text \<open>Subscription \<^verbatim>\<open>xs[i]\<close> of a list or array: a negative index counts from the end.\<close>

definition py_index :: "'a list \<Rightarrow> int \<Rightarrow> error + 'a" where
  "py_index xs i =
     (if 0 \<le> i \<and> i < int (length xs) then Inr (xs ! nat i)
      else if i < 0 \<and> - int (length xs) \<le> i then Inr (xs ! nat (int (length xs) + i))
      else Inl IndexError)"

subsection \<open>Project records and the catalogue\<close>

type_synonym pid = string

text \<open>
  The dictionary of one project as \<^verbatim>\<open>dataframe_to_dictionary\<close> builds it
  (keys \<^verbatim>\<open>spud\<close>, \<^verbatim>\<open>drill\<close>, \<^verbatim>\<open>profile\<close>, \<^verbatim>\<open>years\<close>, \<^verbatim>\<open>curve\<close>), extended by the
  keys that the constructor of \<^verbatim>\<open>Projects\<close> writes into it
  (\<^verbatim>\<open>max\<close>, \<^verbatim>\<open>total\<close>, \<^verbatim>\<open>effective\<close>).
\<close>

record project_data =
  spud :: int
  drill :: int
  profile :: "rat list"
  years :: "rat list"
  curve :: "rat \<Rightarrow> rat"

record project = project_data +
  max_prod :: rat
  total :: rat
  effective :: "rat list"

text \<open>The catalogue is a Python dict: keys in insertion order, looked up by \<open>map_of\<close>.\<close>

type_synonym catalog = "(pid \<times> project) list"

datatype policy = Mean | Minmax | Random

subsection \<open>The planner object\<close>

record planner =
  period :: int
  projects :: catalog
  min_year :: int
  max_year :: int
  first_project :: policy
  next_project :: policy
  initial_iters :: nat
  max_project_prod :: "rat list"
  total_prod :: rat
  global_mean :: rat
  order_projects_names_rel :: "pid list"
  order_projects_names_abs :: "pid list"
  call :: int
  used_projects :: "pid list"
  projects_time_sequence :: "(int \<times> pid) list"
  active_projects :: "pid list"
  projects_first_day :: "int list"
  first_day :: int
  first_year :: int
  projects_sequence :: "(int \<times> nat) list"

type_synonym 'a outcome = "(error + 'a) \<times> planner"

text \<open>
  \<^verbatim>\<open>self.projects_names\<close> and \<^verbatim>\<open>self.projects_length\<close> are assigned once by the
  constructors, as \<^verbatim>\<open>list(projects.keys())\<close> and \<^verbatim>\<open>len(projects)\<close>, and no method
  adds or deletes a key of the catalogue: they are read off the catalogue.
\<close>

definition projects_names :: "planner \<Rightarrow> pid list" where
  "projects_names s = map fst (projects s)"

definition projects_length :: "planner \<Rightarrow> nat" where
  "projects_length s = length (projects s)"

subsection \<open>Adding projects, clearing and removing\<close>

text \<open>
  \<^verbatim>\<open>add_project_sequence\<close>: the execution date is the day number
  \<^verbatim>\<open>self.first_day + first_day - drill\<close>; the log keeps this day number (the
  source stores its rendering as a calendar date).
\<close>

definition add_project_sequence :: "planner \<Rightarrow> pid \<Rightarrow> int \<Rightarrow> unit outcome" where
  "add_project_sequence s p fd =
     (case map_of (projects s) p of
        None \<Rightarrow> (Inl KeyError, s)
      | Some pr \<Rightarrow>
          (Inr (), s\<lparr>projects_time_sequence :=
                       projects_time_sequence s @ [(first_day s + fd - drill pr, p)]\<rparr>))"

text \<open>
  \<^verbatim>\<open>add_projects\<close> on a list of names (a single name is the one-element list):
  the assertion, then the log, then the three appends, name by name.
\<close>

fun add_projects :: "planner \<Rightarrow> pid list \<Rightarrow> int \<Rightarrow> unit outcome" where
  "add_projects s [] fd = (Inr (), s)"
| "add_projects s (p # ps) fd =
     (if p \<in> set (used_projects s) then (Inl AssertionError, s)
      else case add_project_sequence s p fd of
             (Inl e, s1) \<Rightarrow> (Inl e, s1)
           | (Inr u, s1) \<Rightarrow>
               add_projects
                 (s1\<lparr>used_projects := used_projects s1 @ [p],
                     active_projects := active_projects s1 @ [p],
                     projects_first_day := projects_first_day s1 @ [fd]\<rparr>) ps fd)"

definition clear_projects :: "planner \<Rightarrow> planner" where
  "clear_projects s = s\<lparr>used_projects := [], active_projects := [], projects_first_day := []\<rparr>"

text \<open>
  \<^verbatim>\<open>np.delete(arr, indxs)\<close>: the positions listed (negative ones counted from
  the end) are dropped, the others keep their order; a position outside the
  array raises.
\<close>

definition np_delete :: "'a list \<Rightarrow> int list \<Rightarrow> error + 'a list" where
  "np_delete xs indxs =
     (if list_all (\<lambda>i. - int (length xs) \<le> i \<and> i < int (length xs)) indxs
      then Inr (map snd (filter (\<lambda>(k, x). int k \<notin> set (map (\<lambda>i. if i < 0 then int (length xs) + i else i) indxs))
                          (enumerate 0 xs)))
      else Inl IndexError)"

definition remove_projects :: "planner \<Rightarrow> int list \<Rightarrow> unit outcome" where
  "remove_projects s indxs =
     (case np_delete (projects_first_day s) indxs of
        Inl e \<Rightarrow> (Inl e, s)
      | Inr fds \<Rightarrow>
          (case np_delete (active_projects s) indxs of
             Inl e \<Rightarrow> (Inl e, s\<lparr>projects_first_day := fds\<rparr>)
           | Inr act \<Rightarrow> (Inr (), s\<lparr>projects_first_day := fds, active_projects := act\<rparr>)))"

subsection \<open>The active projects of a day and their production\<close>

text \<open>
  The loop of \<^verbatim>\<open>update_simulatenous_projects\<close> over
  \<^verbatim>\<open>enumerate(self.active_projects)\<close>: \<open>p\<close> is the position, \<open>removed\<close> the
  list \<^verbatim>\<open>removed_projects_indxs\<close> so far.
\<close>

fun update_scan :: "planner \<Rightarrow> int \<Rightarrow> nat \<Rightarrow> pid list \<Rightarrow> int list \<Rightarrow> error + int list" where
  "update_scan s day p [] removed = Inr removed"
| "update_scan s day p (pname # rest) removed =
     (case py_index (projects_first_day s) (int p) of
        Inl e \<Rightarrow> Inl e
      | Inr fd \<Rightarrow>
          (case map_of (projects s) pname of
             None \<Rightarrow> Inl KeyError
           | Some pr \<Rightarrow>
               update_scan s day (Suc p) rest
                 (if day - fd = int (length (effective pr)) then removed @ [int p] else removed)))"

definition update_simulatenous_projects :: "planner \<Rightarrow> int \<Rightarrow> unit outcome" where
  "update_simulatenous_projects s day =
     (case update_scan s day 0 (active_projects s) [] of
        Inl e \<Rightarrow> (Inl e, s)
      | Inr removed \<Rightarrow> remove_projects s removed)"

text \<open>The summing loop of \<^verbatim>\<open>project_production\<close>; \<open>temp\<close> is the running total.\<close>

fun production_sum :: "planner \<Rightarrow> int \<Rightarrow> nat \<Rightarrow> pid list \<Rightarrow> rat \<Rightarrow> error + rat" where
  "production_sum s day p [] temp = Inr temp"
| "production_sum s day p (pname # rest) temp =
     (case py_index (projects_first_day s) (int p) of
        Inl e \<Rightarrow> Inl e
      | Inr fd \<Rightarrow>
          (case map_of (projects s) pname of
             None \<Rightarrow> Inl KeyError
           | Some pr \<Rightarrow>
               (case py_index (effective pr) (day - fd) of
                  Inl e \<Rightarrow> Inl e
                | Inr v \<Rightarrow> production_sum s day (Suc p) rest (temp + v))))"

definition project_production :: "planner \<Rightarrow> int \<Rightarrow> rat outcome" where
  "project_production s day =
     (case update_simulatenous_projects s day of
        (Inl e, s1) \<Rightarrow> (Inl e, s1)
      | (Inr u, s1) \<Rightarrow>
          (case production_sum s1 day 0 (active_projects s1) 0 of
             Inl e \<Rightarrow> (Inl e, s1)
           | Inr temp \<Rightarrow> (Inr temp, s1)))"

subsection \<open>numpy helpers\<close>

text \<open>
  \<^verbatim>\<open>a.argsort()\<close>: the positions of \<open>a\<close> in ascending order of their values,
  equal values in the order of their positions. \<^verbatim>\<open>np.where(cond)[0]\<close>: the
  positions where the condition holds. \<^verbatim>\<open>a[idx]\<close> for an index array \<open>idx\<close>
  whose entries are positions of \<open>a\<close>. \<^verbatim>\<open>np.unique(a)\<close>: the sorted distinct
  values.
\<close>

definition argsort :: "('a::linorder) list \<Rightarrow> nat list" where
  "argsort a = sort_key (\<lambda>i. a ! i) [0..<length a]"

definition np_where :: "('a \<Rightarrow> bool) \<Rightarrow> 'a list \<Rightarrow> nat list" where
  "np_where cond a = filter (\<lambda>i. cond (a ! i)) [0..<length a]"

definition np_take :: "'a list \<Rightarrow> nat list \<Rightarrow> 'a list" where
  "np_take a idx = map (\<lambda>i. a ! i) idx"

definition np_unique :: "('a::linorder) list \<Rightarrow> 'a list" where
  "np_unique a = sort (remdups a)"

subsection \<open>The deterministic ordering\<close>

text \<open>
  The groups of equal drilling time, longest first: each group holds the
  catalogue positions \<^verbatim>\<open>indxs_order[np.where(drill_order == dr)[0]]\<close>.
\<close>

definition drill_groups :: "nat list \<Rightarrow> int list \<Rightarrow> nat list list" where
  "drill_groups indxs_order drill_order =
     map (\<lambda>dr. np_take indxs_order (np_where (\<lambda>d. d = dr) drill_order))
         (rev (sort (np_unique drill_order)))"

text \<open>
  The innermost loop \<^verbatim>\<open>for dd,ii in enumerate(ind)\<close>, the loop over the groups
  and the loop \<^verbatim>\<open>for day in range(days_before)\<close>. The test
  \<^verbatim>\<open>drill[ind[0]]\<close> reads the full drilling array at the first member of the
  group (a group is never empty).
\<close>

definition group_entries :: "int \<Rightarrow> int \<Rightarrow> nat list \<Rightarrow> (int \<times> nat) list" where
  "group_entries days_before day ind =
     map (\<lambda>(dd, ii). (- (days_before - day - int dd), ii)) (enumerate 0 ind)"

definition day_entries :: "int list \<Rightarrow> int \<Rightarrow> int \<Rightarrow> nat list list \<Rightarrow> (int \<times> nat) list" where
  "day_entries drills days_before day ind_sequence_before =
     concat (map (\<lambda>ind. if days_before - day = drills ! hd ind
                          then group_entries days_before day ind else [])
                 ind_sequence_before)"

definition sequence_before :: "int list \<Rightarrow> int \<Rightarrow> nat list list \<Rightarrow> (int \<times> nat) list" where
  "sequence_before drills days_before ind_sequence_before =
     concat (map (\<lambda>day. day_entries drills days_before (int day) ind_sequence_before)
                 [0..<nat days_before])"

text \<open>
  \<^verbatim>\<open>projects_ordering\<close>. \<^verbatim>\<open>max(unique_drills)\<close> raises ValueError when no project
  is early, and \<^verbatim>\<open>np.hstack\<close> raises ValueError on the empty list of groups, that
  is when no project is late.
\<close>

definition projects_ordering :: "planner \<Rightarrow> unit outcome" where
  "projects_ordering s =
     (let indxs = [0..<projects_length s];
          spuds = map (\<lambda>(k, pr). spud pr) (projects s);
          drills = map (\<lambda>(k, pr). drill pr) (projects s);
          totals = map (\<lambda>(k, pr). total pr) (projects s);
          before = np_where (\<lambda>y. y < first_year s) spuds;
          indxs_before = np_take indxs before;
          drill_before = np_take drills before;
          totals_before = np_take totals before;
          order = rev (argsort totals_before);
          indxs_order = np_take indxs_before order;
          drill_order = np_take drill_before order;
          unique_drills = np_unique drill_order
      in case unique_drills of
           [] \<Rightarrow> (Inl ValueError, s)
         | d # ds \<Rightarrow>
            (let days_before = fold max ds d;
                 ind_sequence_before = drill_groups indxs_order drill_order;
                 proj_sequence_before = sequence_before drills days_before ind_sequence_before;
                 after = np_where (\<lambda>y. y \<ge> first_year s) spuds;
                 indxs_after = np_take indxs after;
                 drill_after = np_take drills after;
                 totals_after = np_take totals after;
                 new_order = rev (argsort totals_after);
                 indxs_new_order = np_take indxs_after new_order;
                 drill_new_order = np_take drill_after new_order;
                 days_after = length drill_new_order;
                 ind_sequence_after = drill_groups indxs_new_order drill_new_order
             in if ind_sequence_after = [] then (Inl ValueError, s)
                else
                  (let proj_sequence_after =
                         map (\<lambda>day. (int day, concat ind_sequence_after ! day)) [0..<days_after]
                   in (Inr (), s\<lparr>projects_sequence := proj_sequence_before @ proj_sequence_after\<rparr>))))"

subsection \<open>The full run\<close>

text \<open>
  The first loop of \<^verbatim>\<open>__call__\<close>: every entry with a negative start is added
  with first day 0, and \<open>n\<close> counts them.
\<close>

fun add_early :: "planner \<Rightarrow> (int \<times> nat) list \<Rightarrow> nat \<Rightarrow> nat outcome" where
  "add_early s [] n = (Inr n, s)"
| "add_early s ((start, ind) # rest) n =
     (if start < 0 then
        (case py_index (projects_names s) (int ind) of
           Inl e \<Rightarrow> (Inl e, s)
         | Inr pname \<Rightarrow>
             (case add_projects s [pname] 0 of
                (Inl e, s1) \<Rightarrow> (Inl e, s1)
              | (Inr u, s1) \<Rightarrow> add_early s1 rest (Suc n)))
      else add_early s rest n)"

text \<open>
  The body of the loop \<^verbatim>\<open>for day in execution[1:]\<close> for one day, and the loop
  over the remaining days; \<open>production\<close> is the list built so far.
\<close>

definition add_planned :: "planner \<Rightarrow> nat \<Rightarrow> int \<Rightarrow> nat outcome" where
  "add_planned s n day =
     (if n < projects_length s then
        (case py_index (projects_sequence s) (int n) of
           Inl e \<Rightarrow> (Inl e, s)
         | Inr (start, ind) \<Rightarrow>
             (case py_index (projects_names s) (int ind) of
                Inl e \<Rightarrow> (Inl e, s)
              | Inr pname \<Rightarrow>
                  (case add_projects s [pname] day of
                     (Inl e, s1) \<Rightarrow> (Inl e, s1)
                   | (Inr u, s1) \<Rightarrow> (Inr (Suc n), s1))))
      else (Inr n, s))"

fun run_days :: "planner \<Rightarrow> nat \<Rightarrow> int list \<Rightarrow> rat list \<Rightarrow> (rat list) outcome" where
  "run_days s n [] production = (Inr production, s)"
| "run_days s n (day # days) production =
     (case add_planned s n day of
        (Inl e, s1) \<Rightarrow> (Inl e, s1)
      | (Inr n1, s1) \<Rightarrow>
          (case project_production s1 day of
             (Inl e, s2) \<Rightarrow> (Inl e, s2)
           | (Inr P, s2) \<Rightarrow> run_days s2 n1 days (production @ [P])))"

text \<open>\<^verbatim>\<open>__call__\<close>; \<^verbatim>\<open>execution[1:]\<close> is the list of the days \<open>1, \<dots>, period - 1\<close>.\<close>

definition planner_call :: "planner \<Rightarrow> (rat list) outcome" where
  "planner_call s =
     (case projects_ordering s of
        (Inl e, s1) \<Rightarrow> (Inl e, s1)
      | (Inr u, s1) \<Rightarrow>
          (case add_early s1 (projects_sequence s1) 0 of
             (Inl e, s2) \<Rightarrow> (Inl e, s2)
           | (Inr n, s2) \<Rightarrow>
               (case project_production s2 0 of
                  (Inl e, s3) \<Rightarrow> (Inl e, s3)
                | (Inr P, s3) \<Rightarrow> run_days s3 n [1..period s3 - 1] [P])))"

subsection \<open>The constructors and the metrics\<close>

text \<open>
  The catalogue handed to the constructor holds the five keys of
  \<open>project_data\<close>. The integrator \<^verbatim>\<open>scipy.integrate.quad\<close> and the calendar
  \<^verbatim>\<open>mdates.num2date(x).date().year\<close> are library functions: they are the
  parameters \<open>quad\<close> and \<open>year_of\<close>. The keyword arguments are the record
  \<open>kwargs\<close>, with the defaults of the source.
\<close>

type_synonym raw_catalog = "(pid \<times> project_data) list"

record kwargs =
  kw_min_year :: int
  kw_max_year :: int
  kw_first_project :: policy
  kw_next_project :: policy
  kw_initial_iters :: nat

definition default_kwargs :: kwargs where
  "default_kwargs =
     \<lparr>kw_min_year = 0, kw_max_year = - 1, kw_first_project = Mean,
      kw_next_project = Mean, kw_initial_iters = 1000\<rparr>"

fun projects_max_prod :: "raw_catalog \<Rightarrow> error + rat list" where
  "projects_max_prod [] = Inr []"
| "projects_max_prod ((k, pr) # rest) =
     (case py_index (profile pr) 0 of
        Inl e \<Rightarrow> Inl e
      | Inr m \<Rightarrow>
          (case projects_max_prod rest of
             Inl e \<Rightarrow> Inl e
           | Inr ms \<Rightarrow> Inr (m # ms)))"

text \<open>
  \<^verbatim>\<open>projects_total_prod\<close>: the two bounds are read from \<^verbatim>\<open>years\<close> at
  \<^verbatim>\<open>self.min_year\<close> and \<^verbatim>\<open>self.max_year\<close> and passed to the integrator; the
  method has no test of its own on the window. It yields the totals project
  by project; \<^verbatim>\<open>self.total_prod\<close> is their sum.
\<close>

fun projects_total_prod ::
  "((rat \<Rightarrow> rat) \<Rightarrow> rat \<Rightarrow> rat \<Rightarrow> rat) \<Rightarrow> int \<Rightarrow> int \<Rightarrow> raw_catalog \<Rightarrow> error + rat list" where
  "projects_total_prod quad mn mx [] = Inr []"
| "projects_total_prod quad mn mx ((k, pr) # rest) =
     (case py_index (years pr) mn of
        Inl e \<Rightarrow> Inl e
      | Inr iyear \<Rightarrow>
          (case py_index (years pr) mx of
             Inl e \<Rightarrow> Inl e
           | Inr fyear \<Rightarrow>
               (case projects_total_prod quad mn mx rest of
                  Inl e \<Rightarrow> Inl e
                | Inr ts \<Rightarrow> Inr (quad (curve pr) iyear fyear # ts))))"

text \<open>\<^verbatim>\<open>np.arange(iyear, fyear)\<close>: unit steps from \<open>iyear\<close>, \<open>fyear\<close> excluded.\<close>

definition np_arange :: "rat \<Rightarrow> rat \<Rightarrow> rat list" where
  "np_arange a b = map (\<lambda>k. a + of_nat k) [0..<nat \<lceil>b - a\<rceil>]"

fun projects_effective_prod :: "int \<Rightarrow> int \<Rightarrow> raw_catalog \<Rightarrow> error + rat list list" where
  "projects_effective_prod mn mx [] = Inr []"
| "projects_effective_prod mn mx ((k, pr) # rest) =
     (case py_index (years pr) mn of
        Inl e \<Rightarrow> Inl e
      | Inr iyear \<Rightarrow>
          (case py_index (years pr) mx of
             Inl e \<Rightarrow> Inl e
           | Inr fyear \<Rightarrow>
               (case projects_effective_prod mn mx rest of
                  Inl e \<Rightarrow> Inl e
                | Inr es \<Rightarrow> Inr (map (curve pr) (np_arange iyear fyear) # es))))"

text \<open>The two orderings of \<^verbatim>\<open>projects_prod_diff\<close>.\<close>

definition order_rel :: "pid list \<Rightarrow> rat list \<Rightarrow> rat \<Rightarrow> pid list" where
  "order_rel names maxs gm = np_take names (argsort (map (\<lambda>m. \<bar>m - gm\<bar>) maxs))"

definition order_abs :: "pid list \<Rightarrow> rat list \<Rightarrow> pid list" where
  "order_abs names maxs = np_take names (argsort maxs)"

definition with_metrics :: "project_data \<Rightarrow> rat \<Rightarrow> rat \<Rightarrow> rat list \<Rightarrow> project" where
  "with_metrics pr m t e =
     \<lparr>spud = spud pr, drill = drill pr, profile = profile pr, years = years pr,
      curve = curve pr, max_prod = m, total = t, effective = e\<rparr>"

text \<open>
  \<^verbatim>\<open>Projects_Planner.__init__\<close>, which runs \<^verbatim>\<open>Projects.__init__\<close> first: peaks,
  totals, effective productions, then \<^verbatim>\<open>self.total_prod / period\<close> (a Python
  float or the integer 0 divided by \<open>period\<close>, taken as a Python integer: zero
  raises), the orderings, and
  the operational attributes. (\<^verbatim>\<open>self.projects_sequence\<close> exists only once
  \<^verbatim>\<open>projects_ordering\<close> has run; it starts here as the empty list.)
\<close>

definition Projects_Planner_init ::
  "((rat \<Rightarrow> rat) \<Rightarrow> rat \<Rightarrow> rat \<Rightarrow> rat) \<Rightarrow> (int \<Rightarrow> int) \<Rightarrow> int \<Rightarrow> int \<Rightarrow> raw_catalog \<Rightarrow> kwargs
     \<Rightarrow> error + planner" where
  "Projects_Planner_init quad year_of fday per raw kw =
     (case projects_max_prod raw of
        Inl e \<Rightarrow> Inl e
      | Inr maxs \<Rightarrow>
     (case projects_total_prod quad (kw_min_year kw) (kw_max_year kw) raw of
        Inl e \<Rightarrow> Inl e
      | Inr totals \<Rightarrow>
     (case projects_effective_prod (kw_min_year kw) (kw_max_year kw) raw of
        Inl e \<Rightarrow> Inl e
      | Inr effs \<Rightarrow>
          if per = 0 then Inl ZeroDivisionError
          else
            (let T = sum_list totals;
                 gm = T / of_int per;
                 names = map fst raw
             in Inr \<lparr>period = per,
                     projects =
                       map (\<lambda>((k, pr), m, t, e). (k, with_metrics pr m t e))
                           (zip raw (zip maxs (zip totals effs))),
                     min_year = kw_min_year kw,
                     max_year = kw_max_year kw,
                     first_project = kw_first_project kw,
                     next_project = kw_next_project kw,
                     initial_iters = kw_initial_iters kw,
                     max_project_prod = maxs,
                     total_prod = T,
                     global_mean = gm,
                     order_projects_names_rel = order_rel names maxs gm,
                     order_projects_names_abs = order_abs names maxs,
                     call = 0,
                     used_projects = [],
                     projects_time_sequence = [],
                     active_projects = [],
                     projects_first_day = [],
                     first_day = fday,
                     first_year = year_of fday,
                     projects_sequence = []\<rparr>))))"

subsection \<open>Searching the first project\<close>

text \<open>
  The random draws are inputs of the model. For the policy \<^verbatim>\<open>'mean'\<close>,
  \<open>draws it\<close> is the combination \<^verbatim>\<open>indxs\<close> drawn in iteration \<open>it\<close>; for the
  random policy, \<open>choice k\<close> is the value of the \<open>k\<close>-th call of
  \<^verbatim>\<open>np.random.choice(self.projects_length)\<close>.
\<close>

text \<open>
  \<^verbatim>\<open>all(np.array(spud_years) < self.first_year)\<close> for the names at the given
  positions.
\<close>

definition all_spud_before :: "planner \<Rightarrow> pid list \<Rightarrow> error + bool" where
  "all_spud_before s names =
     (if list_all (\<lambda>p. map_of (projects s) p \<noteq> None) names
      then Inr (list_all (\<lambda>p. spud (the (map_of (projects s) p)) < first_year s) names)
      else Inl KeyError)"

text \<open>The \<^verbatim>\<open>while not found\<close> loop of the policy \<^verbatim>\<open>'mean'\<close>, at counter \<open>n\<close>.\<close>

function mean_first_loop ::
  "planner \<Rightarrow> nat list list \<Rightarrow> nat list \<Rightarrow> nat \<Rightarrow> error + pid list" where
  "mean_first_loop s combs_ind sort_indxs n =
     (if n < length sort_indxs then
        (let projects_indxs = combs_ind ! (sort_indxs ! n) in
         if list_all (\<lambda>ind. ind < length (projects_names s)) projects_indxs then
           (let names = map (\<lambda>ind. projects_names s ! ind) projects_indxs in
            case all_spud_before s names of
              Inl e \<Rightarrow> Inl e
            | Inr found \<Rightarrow>
                if found then Inr names
                else mean_first_loop s combs_ind sort_indxs (Suc n))
         else Inl IndexError)
      else Inl IndexError)"
  by pat_completeness auto
termination
  by (relation "measure (\<lambda>(s, combs_ind, sort_indxs, n). length sort_indxs - n)") auto

declare mean_first_loop.simps [simp del]

text \<open>The loop of the policy \<^verbatim>\<open>'minmax'\<close>, at counter \<open>n\<close> (starting from \<open>-1\<close>).\<close>

function minmax_first_loop :: "planner \<Rightarrow> nat list \<Rightarrow> int \<Rightarrow> error + pid" where
  "minmax_first_loop s max_project_prod_sort n =
     (case py_index max_project_prod_sort n of
        Inl e \<Rightarrow> Inl e
      | Inr ind \<Rightarrow>
          (case py_index (order_projects_names_abs s) (int ind) of
             Inl e \<Rightarrow> Inl e
           | Inr pname \<Rightarrow>
               (case map_of (projects s) pname of
                  None \<Rightarrow> Inl KeyError
                | Some pr \<Rightarrow>
                    if spud pr \<le> first_year s then Inr pname
                    else minmax_first_loop s max_project_prod_sort (n - 1))))"
  by pat_completeness auto
termination
  by (relation "measure (\<lambda>(s, srt, n). nat (n + int (length srt) + 1))")
     (auto simp: py_index_def split: if_splits)

declare minmax_first_loop.simps [simp del]

text \<open>
  The loop of the random policy, at draw \<open>k\<close>. Nothing bounds the number of
  draws: the result is \<open>None\<close> when the loop never ends.
\<close>

partial_function (option) random_first_loop ::
  "planner \<Rightarrow> (nat \<Rightarrow> nat) \<Rightarrow> nat \<Rightarrow> (error + pid) option" where
  "random_first_loop s choice k =
     (case py_index (projects_names s) (int (choice k)) of
        Inl e \<Rightarrow> Some (Inl e)
      | Inr pname \<Rightarrow>
          (case map_of (projects s) pname of
             None \<Rightarrow> Some (Inl KeyError)
           | Some pr \<Rightarrow>
               if spud pr < first_year s then Some (Inr pname)
               else random_first_loop s choice (Suc k)))"

text \<open>
  \<^verbatim>\<open>search_first_project\<close>. \<^verbatim>\<open>np.random.choice(0)\<close> raises ValueError: with an
  empty catalogue the policies \<^verbatim>\<open>'mean'\<close> (when it draws at all) and random
  fail before their loops.
\<close>

definition search_first_project ::
  "planner \<Rightarrow> (nat \<Rightarrow> nat list) \<Rightarrow> (nat \<Rightarrow> nat) \<Rightarrow> (unit outcome) option" where
  "search_first_project s draws choice =
     (case first_project s of
        Mean \<Rightarrow>
          (if 0 < initial_iters s \<and> projects_length s = 0 then Some (Inl ValueError, s)
           else
             (let combs_ind = map draws [0..<initial_iters s];
                  combs_sum = map (\<lambda>indxs. sum_list (np_take (max_project_prod s) indxs)) combs_ind;
                  combs_mean_diff = map (\<lambda>c. \<bar>c - global_mean s\<bar>) combs_sum;
                  sort_indxs = argsort combs_mean_diff
              in case mean_first_loop s combs_ind sort_indxs 0 of
                   Inl e \<Rightarrow> Some (Inl e, s)
                 | Inr names \<Rightarrow> Some (add_projects s names 0)))
      | Minmax \<Rightarrow>
          (case minmax_first_loop s (argsort (max_project_prod s)) (- 1) of
             Inl e \<Rightarrow> Some (Inl e, s)
           | Inr pname \<Rightarrow> Some (add_projects s [pname] 0))
      | Random \<Rightarrow>
          (if projects_length s = 0 then Some (Inl ValueError, s)
           else
             (case random_first_loop s choice 0 of
                None \<Rightarrow> None
              | Some (Inl e) \<Rightarrow> Some (Inl e, s)
              | Some (Inr pname) \<Rightarrow> Some (add_projects s [pname] 0))))"

subsection \<open>Searching the next project\<close>

text \<open>
  \<^verbatim>\<open>~np.in1d(self.projects_names, self.used_projects)\<close>, and \<^verbatim>\<open>a[mask]\<close> for a
  boolean mask, which must be as long as the array.
\<close>

definition left_projects_ind :: "planner \<Rightarrow> bool list" where
  "left_projects_ind s = map (\<lambda>p. p \<notin> set (used_projects s)) (projects_names s)"

definition np_mask :: "'a list \<Rightarrow> bool list \<Rightarrow> error + 'a list" where
  "np_mask a msk =
     (if length msk = length a then Inr (map fst (filter snd (zip a msk)))
      else Inl IndexError)"

text \<open>
  Two names are read in \<^verbatim>\<open>search_next_project\<close> without ever being bound:
  \<^verbatim>\<open>spud_year\<close> in the branch \<^verbatim>\<open>'minmax'\<close> (a local of the function, assigned
  in the branch \<^verbatim>\<open>'mean'\<close> only) and \<^verbatim>\<open>year\<close> in the random branch (bound
  neither in the function nor in the module). Reading them raises.
\<close>

definition read_spud_year_minmax :: "error + int" where
  "read_spud_year_minmax = Inl NameError"

definition read_year :: "error + int" where
  "read_year = Inl NameError"

text \<open>The loop of the policy \<^verbatim>\<open>'mean'\<close>, at counter \<open>n\<close>.\<close>

function mean_next_loop ::
  "planner \<Rightarrow> (int \<Rightarrow> int) \<Rightarrow> int \<Rightarrow> int \<Rightarrow> pid list \<Rightarrow> nat \<Rightarrow> error + pid" where
  "mean_next_loop s year_of current_day current_year new_project_name_ord n =
     (case py_index new_project_name_ord (int n) of
        Inl e \<Rightarrow> Inl e
      | Inr pname \<Rightarrow>
          (case map_of (projects s) pname of
             None \<Rightarrow> Inl KeyError
           | Some pr \<Rightarrow>
               (let spud_year = spud pr;
                    spud_date = year_of (current_day - drill pr)
                in if spud_year \<le> current_year \<and> current_year \<le> spud_date then Inr pname
                   else mean_next_loop s year_of current_day current_year
                          new_project_name_ord (Suc n))))"
  by pat_completeness auto
termination
  by (relation "measure (\<lambda>(s, y, cd, cy, ord, n). length ord - n)")
     (auto simp: py_index_def split: if_splits)

declare mean_next_loop.simps [simp del]

text \<open>
  The two loops of the policy \<^verbatim>\<open>'minmax'\<close>: from the top (\<open>step = -1\<close>) and from
  the bottom (\<open>step = 1\<close>) of the ranking.
\<close>

function minmax_next_loop ::
  "planner \<Rightarrow> (int \<Rightarrow> int) \<Rightarrow> int \<Rightarrow> int \<Rightarrow> pid list \<Rightarrow> bool \<Rightarrow> int \<Rightarrow> error + pid" where
  "minmax_next_loop s year_of current_day current_year new_project_name_ord from_top n =
     (case py_index new_project_name_ord n of
        Inl e \<Rightarrow> Inl e
      | Inr pname \<Rightarrow>
          (case map_of (projects s) pname of
             None \<Rightarrow> Inl KeyError
           | Some pr \<Rightarrow>
               (let spud_date = year_of (current_day - drill pr)
                in case read_spud_year_minmax of
                     Inl e \<Rightarrow> Inl e
                   | Inr spud_year \<Rightarrow>
                       if spud_year \<le> current_year \<and> current_year \<le> spud_date then Inr pname
                       else minmax_next_loop s year_of current_day current_year
                              new_project_name_ord from_top
                              (if from_top then n - 1 else n + 1))))"
  by pat_completeness auto
termination
  by (relation "measure (\<lambda>(s, y, cd, cy, ord, from_top, n).
                   if from_top then nat (n + int (length ord) + 1)
                   else nat (int (length ord) - n))")
     (auto simp: py_index_def split: if_splits)

declare minmax_next_loop.simps [simp del]

text \<open>
  The loop of the random policy; \<open>choice k\<close> is the \<open>k\<close>-th value of
  \<^verbatim>\<open>np.random.choice(left_porjects_num)\<close>.
\<close>

partial_function (option) random_next_loop ::
  "planner \<Rightarrow> pid list \<Rightarrow> (nat \<Rightarrow> nat) \<Rightarrow> nat \<Rightarrow> (error + pid) option" where
  "random_next_loop s left_projects_name choice k =
     (case py_index left_projects_name (int (choice k)) of
        Inl e \<Rightarrow> Some (Inl e)
      | Inr pname \<Rightarrow>
          (case map_of (projects s) pname of
             None \<Rightarrow> Some (Inl KeyError)
           | Some pr \<Rightarrow>
               (case read_year of
                  Inl e \<Rightarrow> Some (Inl e)
                | Inr year \<Rightarrow>
                    if spud pr \<le> year then Some (Inr pname)
                    else random_next_loop s left_projects_name choice (Suc k))))"

text \<open>
  \<^verbatim>\<open>search_next_project(day, last_prod)\<close>. In the branch \<^verbatim>\<open>'minmax'\<close> the counter
  \<^verbatim>\<open>self.call\<close> is incremented before anything can fail.
\<close>

definition search_next_project ::
  "planner \<Rightarrow> (int \<Rightarrow> int) \<Rightarrow> (nat \<Rightarrow> nat) \<Rightarrow> int \<Rightarrow> rat \<Rightarrow> (unit outcome) option" where
  "search_next_project s year_of choice day last_prod =
     (let current_day = first_day s + day;
          current_year = year_of current_day;
          left_projects_name = map fst (filter snd (zip (projects_names s) (left_projects_ind s)))
      in case next_project s of
           Mean \<Rightarrow>
             (let last_mean_diff = last_prod - global_mean s;
                  last_prod_diffs = map (\<lambda>m. m + last_mean_diff) (max_project_prod s)
              in case np_mask last_prod_diffs (left_projects_ind s) of
                   Inl e \<Rightarrow> Some (Inl e, s)
                 | Inr new_project_prod \<Rightarrow>
                     (let new_project_prod_ind = rev (argsort new_project_prod);
                          new_project_name_ord = np_take left_projects_name new_project_prod_ind
                      in case mean_next_loop s year_of current_day current_year
                                new_project_name_ord 0 of
                           Inl e \<Rightarrow> Some (Inl e, s)
                         | Inr pname \<Rightarrow> Some (add_projects s [pname] day)))
         | Minmax \<Rightarrow>
             (let s1 = s\<lparr>call := call s + 1\<rparr> in
              case np_mask (max_project_prod s1) (left_projects_ind s1) of
                Inl e \<Rightarrow> Some (Inl e, s1)
              | Inr new_project_prod \<Rightarrow>
                  (let new_project_prod_ind = argsort new_project_prod;
                       new_project_name_ord = np_take left_projects_name new_project_prod_ind
                   in case (if call s1 mod 2 = 0
                            then minmax_next_loop s1 year_of current_day current_year
                                   new_project_name_ord True (- 1)
                            else minmax_next_loop s1 year_of current_day current_year
                                   new_project_name_ord False 0) of
                        Inl e \<Rightarrow> Some (Inl e, s1)
                      | Inr pname \<Rightarrow> Some (add_projects s1 [pname] day)))
         | Random \<Rightarrow>
             (if left_projects_name = [] then Some (Inl ValueError, s)
              else
                (case random_next_loop s left_projects_name choice 0 of
                   None \<Rightarrow> None
                 | Some (Inl e) \<Rightarrow> Some (Inl e, s)
                 | Some (Inr pname) \<Rightarrow> Some (add_projects s [pname] day))))"

subsection \<open>States of a planner and of the day-by-day simulation\<close>

text \<open>
  The states a planner object can be in: as the constructor leaves it, and as
  any method leaves it, whether the method returns or raises.
\<close>

inductive reachable :: "planner \<Rightarrow> bool" where
  constructed: "Projects_Planner_init quad year_of fday per raw kw = Inr s \<Longrightarrow> reachable s"
| added: "reachable s \<Longrightarrow> add_projects s ps fd = (r, s') \<Longrightarrow> reachable s'"
| cleared: "reachable s \<Longrightarrow> reachable (clear_projects s)"
| removed: "reachable s \<Longrightarrow> remove_projects s indxs = (r, s') \<Longrightarrow> reachable s'"
| updated: "reachable s \<Longrightarrow> update_simulatenous_projects s day = (r, s') \<Longrightarrow> reachable s'"
| produced: "reachable s \<Longrightarrow> project_production s day = (rp, s') \<Longrightarrow> reachable s'"
| ordered: "reachable s \<Longrightarrow> projects_ordering s = (r, s') \<Longrightarrow> reachable s'"
| first_searched:
    "reachable s \<Longrightarrow> search_first_project s draws choice = Some (r, s') \<Longrightarrow> reachable s'"
| next_searched:
    "reachable s \<Longrightarrow> search_next_project s year_of choice day last_prod = Some (r, s')
       \<Longrightarrow> reachable s'"
| called: "reachable s \<Longrightarrow> planner_call s = (rc, s') \<Longrightarrow> reachable s'"

text \<open>
  The day-by-day simulation: \<open>sim_state d s\<close> says that \<open>s\<close> is a state of the
  planner on simulated day \<open>d\<close>, before the production of day \<open>d\<close> is computed.
  The simulation starts on day 0 from a newly built planner; on a day, projects
  are added with that day as their first day (by \<^verbatim>\<open>__call__\<close> or by a search)
  and the ordering may be computed; computing the production of the day leads
  to the next day.
\<close>

inductive sim_state :: "int \<Rightarrow> planner \<Rightarrow> bool" where
  sim_built: "Projects_Planner_init quad year_of fday per raw kw = Inr s \<Longrightarrow> sim_state 0 s"
| sim_added: "sim_state d s \<Longrightarrow> add_projects s ps d = (r, s') \<Longrightarrow> sim_state d s'"
| sim_ordered: "sim_state d s \<Longrightarrow> projects_ordering s = (r, s') \<Longrightarrow> sim_state d s'"
| sim_produced: "sim_state d s \<Longrightarrow> project_production s d = (Inr P, s') \<Longrightarrow> sim_state (d + 1) s'"

text \<open>The active pairs (project, first day) of a state, and the length of a project's
  effective production.\<close>

definition active_pairs :: "planner \<Rightarrow> (pid \<times> int) list" where
  "active_pairs s = zip (active_projects s) (projects_first_day s)"

definition effective_length :: "planner \<Rightarrow> pid \<Rightarrow> int" where
  "effective_length s p =
     (case map_of (projects s) p of None \<Rightarrow> 0 | Some pr \<Rightarrow> int (length (effective pr)))"

subsection \<open>Example catalogues\<close>

text \<open>
  Stand-ins for the two library functions in the examples: the trapezoid value
  as integrator and a calendar of 365-day years in which day 0 falls in 2000.
\<close>

definition trapezoid :: "(rat \<Rightarrow> rat) \<Rightarrow> rat \<Rightarrow> rat \<Rightarrow> rat" where
  "trapezoid f a b = (b - a) * (f a + f b) / 2"

definition example_year :: "int \<Rightarrow> int" where
  "example_year x = 2000 + x div 365"

definition example_project :: "int \<Rightarrow> int \<Rightarrow> rat list \<Rightarrow> rat list \<Rightarrow> rat \<Rightarrow> project_data" where
  "example_project sp dr pf ys c =
     \<lparr>spud = sp, drill = dr, profile = pf, years = ys, curve = (\<lambda>t. c)\<rparr>"

text \<open>Three projects with peaks 2, 3 and 1; the first two may start before 2000.\<close>

definition example_catalog :: raw_catalog where
  "example_catalog =
     [(''P0'', example_project 1998 2 [2, 1] [0, 3] 10),
      (''P1'', example_project 1998 1 [3, 1] [0, 3] 10),
      (''P2'', example_project 2001 1 [1, 1] [0, 3] 10)]"

definition example_kwargs :: kwargs where
  "example_kwargs = default_kwargs\<lparr>kw_first_project := Minmax, kw_next_project := Random\<rparr>"

definition example_planner :: planner where
  "example_planner =
     \<lparr>period = 5,
      projects =
        [(''P0'', with_metrics (example_project 1998 2 [2, 1] [0, 3] 10) 2 30 [10, 10, 10]),
         (''P1'', with_metrics (example_project 1998 1 [3, 1] [0, 3] 10) 3 30 [10, 10, 10]),
         (''P2'', with_metrics (example_project 2001 1 [1, 1] [0, 3] 10) 1 30 [10, 10, 10])],
      min_year = 0, max_year = - 1, first_project = Minmax, next_project = Random,
      initial_iters = 1000, max_project_prod = [2, 3, 1], total_prod = 90, global_mean = 18,
      order_projects_names_rel = [''P1'', ''P0'', ''P2''],
      order_projects_names_abs = [''P2'', ''P0'', ''P1''],
      call = 0, used_projects = [], projects_time_sequence = [], active_projects = [],
      projects_first_day = [], first_day = 0, first_year = 2000, projects_sequence = []\<rparr>"

text \<open>
  The catalogue of the ordering scenario: A and B, both with spud year 1998,
  drilling 2 and 1 days, total production 100 and 50; the period starts in 2000.
\<close>

definition two_catalog :: raw_catalog where
  "two_catalog =
     [(''A'', example_project 1998 2 [10, 10] [0, 10] 10),
      (''B'', example_project 1998 1 [5, 5] [0, 10] 5)]"

definition two_planner :: planner where
  "two_planner =
     \<lparr>period = 3,
      projects =
        [(''A'', with_metrics (example_project 1998 2 [10, 10] [0, 10] 10) 10 100
                   [10, 10, 10, 10, 10, 10, 10, 10, 10, 10]),
         (''B'', with_metrics (example_project 1998 1 [5, 5] [0, 10] 5) 5 50
                   [5, 5, 5, 5, 5, 5, 5, 5, 5, 5])],
      min_year = 0, max_year = - 1, first_project = Mean, next_project = Mean,
      initial_iters = 1000, max_project_prod = [10, 5], total_prod = 150, global_mean = 50,
      order_projects_names_rel = [''A'', ''B''],
      order_projects_names_abs = [''B'', ''A''],
      call = 0, used_projects = [], projects_time_sequence = [], active_projects = [],
      projects_first_day = [], first_day = 0, first_year = 2000, projects_sequence = []\<rparr>"

text \<open>A catalogue whose only project cannot start before 2005.\<close>

definition late_catalog :: raw_catalog where
  "late_catalog = [(''L0'', example_project 2005 1 [4, 1] [0, 3] 10)]"

definition late_planner :: planner where
  "late_planner =
     \<lparr>period = 5,
      projects = [(''L0'', with_metrics (example_project 2005 1 [4, 1] [0, 3] 10) 4 30 [10, 10, 10])],
      min_year = 0, max_year = - 1, first_project = Random, next_project = Mean,
      initial_iters = 1000, max_project_prod = [4], total_prod = 30, global_mean = 6,
      order_projects_names_rel = [''L0''],
      order_projects_names_abs = [''L0''],
      call = 0, used_projects = [], projects_time_sequence = [], active_projects = [],
      projects_first_day = [], first_day = 0, first_year = 2000, projects_sequence = []\<rparr>"

definition zero_choice :: "nat \<Rightarrow> nat" where
  "zero_choice k = 0"

definition empty_draws :: "nat \<Rightarrow> nat list" where
  "empty_draws it = []"

text \<open>The example planner after \<^verbatim>\<open>add_projects('P0', 0)\<close>.\<close>

definition example_started :: planner where
  "example_started =
     example_planner\<lparr>projects_time_sequence := [(- 2, ''P0'')],
        used_projects := [''P0''], active_projects := [''P0''], projects_first_day := [0]\<rparr>"

text \<open>
  What holds of the active projects on day \<open>d\<close> of the simulation, before the
  production of the day: the two arrays are equally long, every active project
  is in the catalogue, started no later than \<open>d\<close> and has not outlived its
  effective production.
\<close>

definition sim_inv :: "int \<Rightarrow> planner \<Rightarrow> bool" where
  "sim_inv d s \<longleftrightarrow>
     length (active_projects s) = length (projects_first_day s)
     \<and> list_all (\<lambda>p. map_of (projects s) p \<noteq> None) (active_projects s)
     \<and> list_all (\<lambda>(p, fd). fd \<le> d \<and> d - fd \<le> effective_length s p) (active_pairs s)"

text \<open>
  The value that \<^verbatim>\<open>years[i]\<close> reads for a project, where the index is in range.
\<close>

definition year_at :: "project_data \<Rightarrow> int \<Rightarrow> rat" where
  "year_at pr i = (case py_index (years pr) i of Inl e \<Rightarrow> 0 | Inr y \<Rightarrow> y)"

definition year_in_range :: "project_data \<Rightarrow> int \<Rightarrow> bool" where
  "year_in_range pr i = (- int (length (years pr)) \<le> i \<and> i < int (length (years pr)))"

subsection \<open>Candidates that fail the feasibility tests\<close>

text \<open>
  A name of the catalogue that fails the test of the first-project policy
  \<^verbatim>\<open>'minmax'\<close> (\<^verbatim>\<open>spud <= first_year\<close>), of the random first-project policy
  (\<^verbatim>\<open>spud < first_year\<close>), and of the next-project policy \<^verbatim>\<open>'mean'\<close> on a day
  (\<^verbatim>\<open>spud_year <= current_year <= spud_date\<close>).
\<close>

definition infeasible_first_minmax :: "planner \<Rightarrow> pid \<Rightarrow> bool" where
  "infeasible_first_minmax s p =
     (case map_of (projects s) p of None \<Rightarrow> False | Some pr \<Rightarrow> \<not> spud pr \<le> first_year s)"

definition infeasible_first_random :: "planner \<Rightarrow> pid \<Rightarrow> bool" where
  "infeasible_first_random s p =
     (case map_of (projects s) p of None \<Rightarrow> False | Some pr \<Rightarrow> \<not> spud pr < first_year s)"

definition infeasible_next_mean :: "planner \<Rightarrow> (int \<Rightarrow> int) \<Rightarrow> int \<Rightarrow> pid \<Rightarrow> bool" where
  "infeasible_next_mean s year_of day p =
     (case map_of (projects s) p of
        None \<Rightarrow> False
      | Some pr \<Rightarrow>
          \<not> (spud pr \<le> year_of (first_day s + day)
             \<and> year_of (first_day s + day) \<le> year_of (first_day s + day - drill pr)))"

text \<open>
  Every combination drawn by the first-project policy \<^verbatim>\<open>'mean'\<close> consists of
  catalogue positions and fails \<^verbatim>\<open>all(spud_years < first_year)\<close>.
\<close>

definition no_feasible_draw :: "planner \<Rightarrow> (nat \<Rightarrow> nat list) \<Rightarrow> bool" where
  "no_feasible_draw s draws =
     list_all (\<lambda>it. list_all (\<lambda>ind. ind < length (projects_names s)) (draws it)
                    \<and> all_spud_before s (map (\<lambda>ind. projects_names s ! ind) (draws it)) = Inr False)
              [0..<initial_iters s]"

text \<open>The example catalogue with the period \<open>-2\<close>, as the constructor builds it.\<close>

definition negative_planner :: planner where
  "negative_planner =
     example_planner\<lparr>period := - 2, global_mean := - 45,
        order_projects_names_rel := [''P2'', ''P0'', ''P1'']\<rparr>"

text \<open>
  The draws of the first-project policy \<^verbatim>\<open>'mean'\<close> where only the empty
  combination passes \<^verbatim>\<open>all(spud_years < first_year)\<close>: every drawn combination
  is empty, or consists of catalogue positions and fails the test, and at least
  one is empty.
\<close>

definition only_empty_feasible :: "planner \<Rightarrow> (nat \<Rightarrow> nat list) \<Rightarrow> bool" where
  "only_empty_feasible s draws =
     (list_all (\<lambda>it. draws it = []
                    \<or> (list_all (\<lambda>ind. ind < length (projects_names s)) (draws it)
                       \<and> all_spud_before s (map (\<lambda>ind. projects_names s ! ind) (draws it))
                           = Inr False))
               [0..<initial_iters s]
      \<and> list_ex (\<lambda>it. draws it = []) [0..<initial_iters s])"

text \<open>
  A catalogue of two projects that cannot start before 2005 and 2006, with two
  iterations of the search for the first project, and draws of one position
  each: position 0 in the even iterations, position 1 in the odd ones.
\<close>

definition late_two_catalog :: raw_catalog where
  "late_two_catalog =
     [(''L0'', example_project 2005 1 [4, 1] [0, 3] 10),
      (''L1'', example_project 2006 2 [6, 1] [0, 3] 10)]"

definition late_two_planner :: planner where
  "late_two_planner =
     \<lparr>period = 5,
      projects =
        [(''L0'', with_metrics (example_project 2005 1 [4, 1] [0, 3] 10) 4 30 [10, 10, 10]),
         (''L1'', with_metrics (example_project 2006 2 [6, 1] [0, 3] 10) 6 30 [10, 10, 10])],
      min_year = 0, max_year = - 1, first_project = Mean, next_project = Mean,
      initial_iters = 2, max_project_prod = [4, 6], total_prod = 60, global_mean = 12,
      order_projects_names_rel = [''L1'', ''L0''],
      order_projects_names_abs = [''L0'', ''L1''],
      call = 0, used_projects = [], projects_time_sequence = [], active_projects = [],
      projects_first_day = [], first_day = 0, first_year = 2000, projects_sequence = []\<rparr>"

definition single_draws :: "nat \<Rightarrow> nat list" where
  "single_draws it = [it mod 2]"

section \<open>Properties\<close>

subsection \<open>The example planners are what the constructor builds\<close>

lemma example_planner_built:
  "Projects_Planner_init trapezoid example_year 0 5 example_catalog example_kwargs
     = Inr example_planner"
  by (simp add: Projects_Planner_init_def example_catalog_def example_kwargs_def
      default_kwargs_def example_planner_def example_project_def py_index_def np_arange_def
      trapezoid_def example_year_def order_rel_def order_abs_def argsort_def np_take_def
      with_metrics_def upt_conv_Cons Let_def)

lemma two_planner_built:
  "Projects_Planner_init trapezoid example_year 0 3 two_catalog default_kwargs
     = Inr two_planner"
  by (simp add: Projects_Planner_init_def two_catalog_def
      default_kwargs_def two_planner_def example_project_def py_index_def np_arange_def
      trapezoid_def example_year_def order_rel_def order_abs_def argsort_def np_take_def
      with_metrics_def upt_conv_Cons Let_def)

lemma late_planner_built:
  "Projects_Planner_init trapezoid example_year 0 5 late_catalog
     (default_kwargs\<lparr>kw_first_project := Random\<rparr>) = Inr late_planner"
  by (simp add: Projects_Planner_init_def late_catalog_def
      default_kwargs_def late_planner_def example_project_def py_index_def np_arange_def
      trapezoid_def example_year_def order_rel_def order_abs_def argsort_def np_take_def
      with_metrics_def upt_conv_Cons Let_def)

subsection \<open>Clearing the execution lists\<close>

text \<open>
  Claim C9. \<^verbatim>\<open>clear_projects\<close> empties the used projects, the active projects
  and the recorded first days, and nothing else: the execution log
  \<^verbatim>\<open>projects_time_sequence\<close> and the counter \<^verbatim>\<open>call\<close> of the alternation are as
  they were, and so is every other attribute.
\<close>

theorem clear_projects_frame:
  "used_projects (clear_projects s) = []
   \<and> active_projects (clear_projects s) = []
   \<and> projects_first_day (clear_projects s) = []
   \<and> projects_time_sequence (clear_projects s) = projects_time_sequence s
   \<and> call (clear_projects s) = call s
   \<and> clear_projects s
       = s\<lparr>used_projects := [], active_projects := [], projects_first_day := []\<rparr>"
  by (simp add: clear_projects_def)

subsection \<open>The used projects never repeat\<close>

lemma add_project_sequence_used:
  "add_project_sequence s p fd = (r, s1) \<Longrightarrow>
     used_projects s1 = used_projects s \<and> active_projects s1 = active_projects s
     \<and> projects_first_day s1 = projects_first_day s \<and> projects s1 = projects s"
  by (auto simp: add_project_sequence_def split: option.splits)

lemma add_projects_distinct:
  "add_projects s ps fd = (r, s') \<Longrightarrow> distinct (used_projects s) \<Longrightarrow> distinct (used_projects s')"
proof (induction ps arbitrary: s)
  case Nil
  then show ?case by simp
next
  case (Cons p ps)
  show ?case
  proof (cases "p \<in> set (used_projects s)")
    case True
    with Cons.prems show ?thesis by simp
  next
    case False
    obtain r1 s1 where a: "add_project_sequence s p fd = (r1, s1)" by (cases "add_project_sequence s p fd")
    note u = add_project_sequence_used [OF a]
    show ?thesis
    proof (cases r1)
      case (Inl e)
      with Cons.prems False a u show ?thesis by simp
    next
      case (Inr v)
      let ?s2 = "s1\<lparr>used_projects := used_projects s1 @ [p],
                     active_projects := active_projects s1 @ [p],
                     projects_first_day := projects_first_day s1 @ [fd]\<rparr>"
      from Cons.prems(1) False a Inr have "add_projects ?s2 ps fd = (r, s')" by simp
      moreover have "distinct (used_projects ?s2)" using Cons.prems(2) False u by simp
      ultimately show ?thesis by (rule Cons.IH)
    qed
  qed
qed

lemma remove_projects_used:
  "remove_projects s indxs = (r, s') \<Longrightarrow> used_projects s' = used_projects s"
  by (auto simp: remove_projects_def split: sum.splits)

lemma update_used:
  "update_simulatenous_projects s day = (r, s') \<Longrightarrow> used_projects s' = used_projects s"
  by (auto simp: update_simulatenous_projects_def split: sum.splits dest: remove_projects_used)

lemma production_used:
  "project_production s day = (r, s') \<Longrightarrow> used_projects s' = used_projects s"
  by (auto simp: project_production_def split: sum.splits prod.splits dest: update_used)

lemma ordering_used:
  "projects_ordering s = (r, s') \<Longrightarrow> used_projects s' = used_projects s"
  by (auto simp: projects_ordering_def Let_def split: list.splits if_splits)

lemma search_first_state:
  "search_first_project s draws choice = Some (r, s') \<Longrightarrow>
     s' = s \<or> (\<exists>names. add_projects s names 0 = (r, s'))"
  by (auto simp: search_first_project_def Let_def simp del: add_projects.simps
      split: policy.splits if_splits sum.splits option.splits)

lemma search_first_distinct:
  assumes "search_first_project s draws choice = Some (r, s')" "distinct (used_projects s)"
  shows "distinct (used_projects s')"
  using search_first_state [OF assms(1)] assms(2) by (auto dest: add_projects_distinct)

lemma search_next_state:
  "search_next_project s year_of choice day last_prod = Some (r, s') \<Longrightarrow>
     s' = s \<or> s' = s\<lparr>call := call s + 1\<rparr>
     \<or> (\<exists>names. add_projects s names day = (r, s'))
     \<or> (\<exists>names. add_projects (s\<lparr>call := call s + 1\<rparr>) names day = (r, s'))"
  by (auto simp: search_next_project_def Let_def simp del: add_projects.simps
      split: policy.splits if_splits sum.splits option.splits)

lemma search_next_distinct:
  assumes "search_next_project s year_of choice day last_prod = Some (r, s')"
    "distinct (used_projects s)"
  shows "distinct (used_projects s')"
proof -
  have d: "distinct (used_projects (s\<lparr>call := call s + 1\<rparr>))" using assms(2) by simp
  from search_next_state [OF assms(1)] show ?thesis
    using assms(2) d by (auto dest: add_projects_distinct)
qed

lemma add_early_distinct:
  "add_early s seq n = (r, s') \<Longrightarrow> distinct (used_projects s) \<Longrightarrow> distinct (used_projects s')"
proof (induction seq arbitrary: s n)
  case Nil
  then show ?case by simp
next
  case (Cons entry rest)
  obtain start ind where entry: "entry = (start, ind)" by (cases entry)
  show ?case
  proof (cases "start < 0")
    case False
    with Cons.prems(1) entry have "add_early s rest n = (r, s')" by simp
    then show ?thesis using Cons.prems(2) by (rule Cons.IH)
  next
    case True
    show ?thesis
    proof (cases "py_index (projects_names s) (int ind)")
      case (Inl e)
      with Cons.prems True entry show ?thesis by simp
    next
      case (Inr pname)
      obtain r1 s1 where a: "add_projects s [pname] 0 = (r1, s1)"
        by (cases "add_projects s [pname] 0")
      have d1: "distinct (used_projects s1)" using add_projects_distinct [OF a Cons.prems(2)] .
      show ?thesis
      proof (cases r1)
        case (Inl e)
        with Cons.prems(1) True entry \<open>py_index (projects_names s) (int ind) = Inr pname\<close> a d1
        show ?thesis by (simp del: add_projects.simps)
      next
        case (Inr u)
        with Cons.prems(1) True entry \<open>py_index (projects_names s) (int ind) = Inr pname\<close> a
        have "add_early s1 rest (Suc n) = (r, s')" by (simp del: add_projects.simps)
        then show ?thesis using d1 by (rule Cons.IH)
      qed
    qed
  qed
qed

lemma add_planned_distinct:
  "add_planned s n day = (r, s') \<Longrightarrow> distinct (used_projects s) \<Longrightarrow> distinct (used_projects s')"
  by (auto simp: add_planned_def simp del: add_projects.simps
      split: if_splits sum.splits prod.splits dest: add_projects_distinct)

lemma run_days_distinct:
  "run_days s n days production = (r, s') \<Longrightarrow> distinct (used_projects s)
     \<Longrightarrow> distinct (used_projects s')"
proof (induction days arbitrary: s n production)
  case Nil
  then show ?case by simp
next
  case (Cons day days)
  obtain r1 s1 where a: "add_planned s n day = (r1, s1)" by (cases "add_planned s n day")
  have d1: "distinct (used_projects s1)" using add_planned_distinct [OF a Cons.prems(2)] .
  show ?case
  proof (cases r1)
    case (Inl e)
    with Cons.prems a d1 show ?thesis by simp
  next
    case (Inr n1)
    obtain r2 s2 where p: "project_production s1 day = (r2, s2)"
      by (cases "project_production s1 day")
    have d2: "distinct (used_projects s2)" using production_used [OF p] d1 by simp
    show ?thesis
    proof (cases r2)
      case (Inl e)
      with Cons.prems a Inr p d2 show ?thesis by simp
    next
      case (Inr P)
      with Cons.prems(1) a \<open>r1 = Inr n1\<close> p
      have "run_days s2 n1 days (production @ [P]) = (r, s')" by simp
      then show ?thesis using d2 by (rule Cons.IH)
    qed
  qed
qed

lemma planner_call_distinct:
  assumes "planner_call s = (r, s')" "distinct (used_projects s)"
  shows "distinct (used_projects s')"
proof -
  obtain r1 s1 where o: "projects_ordering s = (r1, s1)" by (cases "projects_ordering s")
  have d1: "distinct (used_projects s1)" using ordering_used [OF o] assms(2) by simp
  show ?thesis
  proof (cases r1)
    case (Inl e)
    with assms(1) o d1 show ?thesis by (simp add: planner_call_def)
  next
    case (Inr u)
    obtain r2 s2 where e: "add_early s1 (projects_sequence s1) 0 = (r2, s2)"
      by (cases "add_early s1 (projects_sequence s1) 0")
    have d2: "distinct (used_projects s2)" using add_early_distinct [OF e d1] .
    show ?thesis
    proof (cases r2)
      case (Inl e2)
      with assms(1) o Inr e d2 show ?thesis by (simp add: planner_call_def)
    next
      case (Inr n)
      obtain r3 s3 where p: "project_production s2 0 = (r3, s3)"
        by (cases "project_production s2 0")
      have d3: "distinct (used_projects s3)" using production_used [OF p] d2 by simp
      show ?thesis
      proof (cases r3)
        case (Inl e3)
        with assms(1) o \<open>r1 = Inr u\<close> e \<open>r2 = Inr n\<close> p d3 show ?thesis
          by (simp add: planner_call_def)
      next
        case (Inr P)
        with assms(1) o \<open>r1 = Inr u\<close> e \<open>r2 = Inr n\<close> p
        have "run_days s3 n [1..period s3 - 1] [P] = (r, s')" by (simp add: planner_call_def)
        then show ?thesis using d3 by (rule run_days_distinct)
      qed
    qed
  qed
qed

lemma init_used:
  "Projects_Planner_init quad year_of fday per raw kw = Inr s \<Longrightarrow>
     used_projects s = [] \<and> active_projects s = [] \<and> projects_first_day s = [] \<and> period s = per \<and> per \<noteq> 0"
  by (auto simp: Projects_Planner_init_def Let_def split: sum.splits if_splits)

lemma reachable_distinct: "reachable s \<Longrightarrow> distinct (used_projects s)"
proof (induction rule: reachable.induct)
  case (constructed quad year_of fday per raw kw s)
  then show ?case by (simp add: init_used)
next
  case (cleared s)
  then show ?case by (simp add: clear_projects_def)
qed (auto dest: add_projects_distinct remove_projects_used update_used production_used
      ordering_used search_first_distinct search_next_distinct planner_call_distinct)


lemma add_projects_success_used:
  "add_projects s ps fd = (Inr u, s') \<Longrightarrow> used_projects s' = used_projects s @ ps"
proof (induction ps arbitrary: s)
  case Nil
  then show ?case by simp
next
  case (Cons p ps)
  from Cons.prems have nu: "p \<notin> set (used_projects s)" by (auto split: if_splits)
  obtain r1 s1 where a: "add_project_sequence s p fd = (r1, s1)"
    by (cases "add_project_sequence s p fd")
  note f = add_project_sequence_used [OF a]
  let ?s2 = "s1\<lparr>used_projects := used_projects s1 @ [p],
                 active_projects := active_projects s1 @ [p],
                 projects_first_day := projects_first_day s1 @ [fd]\<rparr>"
  from Cons.prems nu a have "add_projects ?s2 ps fd = (Inr u, s')"
    by (cases r1) auto
  from Cons.IH [OF this] f show ?case by simp
qed

lemma add_projects_fails_on_used:
  "p \<in> set ps \<Longrightarrow> p \<in> set (used_projects s) \<Longrightarrow> fst (add_projects s ps fd) \<noteq> Inr ()"
proof (induction ps arbitrary: s)
  case Nil
  then show ?case by simp
next
  case (Cons q ps)
  show ?case
  proof (cases "q \<in> set (used_projects s)")
    case True
    then show ?thesis by simp
  next
    case False
    with Cons.prems have pin: "p \<in> set ps" by auto
    obtain r1 s1 where a: "add_project_sequence s q fd = (r1, s1)"
      by (cases "add_project_sequence s q fd")
    note f = add_project_sequence_used [OF a]
    show ?thesis
    proof (cases r1)
      case (Inl e)
      with False a show ?thesis by simp
    next
      case (Inr u)
      let ?s2 = "s1\<lparr>used_projects := used_projects s1 @ [q],
                     active_projects := active_projects s1 @ [q],
                     projects_first_day := projects_first_day s1 @ [fd]\<rparr>"
      have "p \<in> set (used_projects ?s2)" using Cons.prems(2) f by simp
      from Cons.IH [OF pin this] False a Inr show ?thesis by simp
    qed
  qed
qed

text \<open>
  Claim C8. In every state of a planner the list of used projects has no
  duplicate. \<^verbatim>\<open>add_projects\<close> fails on a name that is already used (with the
  assertion error, leaving the state as it was, when called on that name
  alone), every outcome of \<^verbatim>\<open>add_projects\<close> keeps the list free of duplicates, and
  a call that succeeds has appended names that are distinct and were unused:
  a project receives a first day at most once.
\<close>

theorem used_projects_no_duplicates:
  assumes "reachable s"
  shows "distinct (used_projects s)
    \<and> (\<forall>p fd. p \<in> set (used_projects s) \<longrightarrow> add_projects s [p] fd = (Inl AssertionError, s))
    \<and> (\<forall>p ps fd. p \<in> set ps \<and> p \<in> set (used_projects s)
          \<longrightarrow> fst (add_projects s ps fd) \<noteq> Inr ())
    \<and> (\<forall>ps fd r s'. add_projects s ps fd = (r, s') \<longrightarrow> distinct (used_projects s'))
    \<and> (\<forall>ps fd s'. add_projects s ps fd = (Inr (), s')
          \<longrightarrow> used_projects s' = used_projects s @ ps \<and> distinct ps
              \<and> set ps \<inter> set (used_projects s) = {})"
proof -
  have d: "distinct (used_projects s)" using assms by (rule reachable_distinct)
  have a: "\<forall>p fd. p \<in> set (used_projects s) \<longrightarrow> add_projects s [p] fd = (Inl AssertionError, s)"
    by simp
  have b: "\<forall>p ps fd. p \<in> set ps \<and> p \<in> set (used_projects s)
          \<longrightarrow> fst (add_projects s ps fd) \<noteq> Inr ()"
    using add_projects_fails_on_used by blast
  have c: "\<forall>ps fd r s'. add_projects s ps fd = (r, s') \<longrightarrow> distinct (used_projects s')"
    using add_projects_distinct d by blast
  have e: "\<forall>ps fd s'. add_projects s ps fd = (Inr (), s')
          \<longrightarrow> used_projects s' = used_projects s @ ps \<and> distinct ps
              \<and> set ps \<inter> set (used_projects s) = {}"
  proof (intro allI impI)
    fix ps fd s'
    assume h: "add_projects s ps fd = (Inr (), s')"
    have u: "used_projects s' = used_projects s @ ps" using h by (rule add_projects_success_used)
    have "distinct (used_projects s')" using add_projects_distinct [OF h d] .
    with u show "used_projects s' = used_projects s @ ps \<and> distinct ps
              \<and> set ps \<inter> set (used_projects s) = {}" by auto
  qed
  from d a b c e show ?thesis by blast
qed

subsection \<open>A failing call of \<^verbatim>\<open>add_projects\<close> keeps what it has done\<close>

lemma add_projects_prefix:
  "distinct pre \<Longrightarrow> set pre \<inter> set (used_projects s) = {}
   \<Longrightarrow> list_all (\<lambda>q. map_of (projects s) q \<noteq> None) pre
   \<Longrightarrow> add_projects s (pre @ rest) fd =
       add_projects
         (s\<lparr>projects_time_sequence := projects_time_sequence s
               @ map (\<lambda>q. (first_day s + fd - drill (the (map_of (projects s) q)), q)) pre,
            used_projects := used_projects s @ pre,
            active_projects := active_projects s @ pre,
            projects_first_day := projects_first_day s @ replicate (length pre) fd\<rparr>) rest fd"
proof (induction pre arbitrary: s)
  case Nil
  then show ?case by simp
next
  case (Cons q pre)
  from Cons.prems obtain pr where pr: "map_of (projects s) q = Some pr" by auto
  let ?s2 = "s\<lparr>projects_time_sequence := projects_time_sequence s @ [(first_day s + fd - drill pr, q)],
                used_projects := used_projects s @ [q],
                active_projects := active_projects s @ [q],
                projects_first_day := projects_first_day s @ [fd]\<rparr>"
  have step: "add_projects s ((q # pre) @ rest) fd = add_projects ?s2 (pre @ rest) fd"
    using Cons.prems(2) pr by (simp add: add_project_sequence_def)
  have "add_projects ?s2 (pre @ rest) fd =
       add_projects
         (?s2\<lparr>projects_time_sequence := projects_time_sequence ?s2
               @ map (\<lambda>q. (first_day ?s2 + fd - drill (the (map_of (projects ?s2) q)), q)) pre,
            used_projects := used_projects ?s2 @ pre,
            active_projects := active_projects ?s2 @ pre,
            projects_first_day := projects_first_day ?s2 @ replicate (length pre) fd\<rparr>) rest fd"
    using Cons.prems by (intro Cons.IH) auto
  with step pr show ?case by (simp add: replicate_app_Cons_same)
qed

text \<open>
  Claim C10. \<^verbatim>\<open>add_projects\<close> on a list is not atomic: when the names \<open>pre\<close>
  before \<open>p\<close> are distinct, unused and in the catalogue, and \<open>p\<close> is already
  used (or repeats one of \<open>pre\<close>), the call fails at \<open>p\<close> with the assertion
  error and leaves the names \<open>pre\<close> appended to the used and the active projects,
  their first days recorded and their entries appended to the execution log.
\<close>

theorem add_projects_not_atomic:
  assumes "distinct pre" and "set pre \<inter> set (used_projects s) = {}"
    and "list_all (\<lambda>q. map_of (projects s) q \<noteq> None) pre"
    and "p \<in> set (used_projects s) \<union> set pre"
  shows "add_projects s (pre @ p # rest) fd =
     (Inl AssertionError,
      s\<lparr>projects_time_sequence := projects_time_sequence s
            @ map (\<lambda>q. (first_day s + fd - drill (the (map_of (projects s) q)), q)) pre,
         used_projects := used_projects s @ pre,
         active_projects := active_projects s @ pre,
         projects_first_day := projects_first_day s @ replicate (length pre) fd\<rparr>)"
  using assms(4) by (simp add: add_projects_prefix [OF assms(1-3)])

subsection \<open>The examples for the two preceding claims\<close>

lemma example_started_added:
  "add_projects example_planner [''P0''] 0 = (Inr (), example_started)"
  by (simp add: example_started_def example_planner_def add_project_sequence_def
      example_project_def with_metrics_def)

lemma example_started_reachable: "reachable example_started"
  by (rule reachable.added [OF reachable.constructed [OF example_planner_built]
        example_started_added])

theorem used_projects_no_duplicates_witness:
  "distinct (used_projects example_started)
   \<and> add_projects example_started [''P0''] 1 = (Inl AssertionError, example_started)
   \<and> fst (add_projects example_started [''P1'', ''P0''] 1) \<noteq> Inr ()"
proof -
  note t = used_projects_no_duplicates [OF example_started_reachable]
  have u: "''P0'' \<in> set (used_projects example_started)"
    by (simp add: example_started_def)
  have 1: "distinct (used_projects example_started)" using t by (rule conjunct1)
  have 2: "add_projects example_started [''P0''] 1 = (Inl AssertionError, example_started)"
    using t u by blast
  have "''P0'' \<in> set [''P1'', ''P0'']" by simp
  with t u have 3: "fst (add_projects example_started [''P1'', ''P0''] 1) \<noteq> Inr ()"
    by blast
  from 1 2 3 show ?thesis by blast
qed

theorem add_projects_not_atomic_witness:
  "add_projects example_started ([''P1'', ''P2''] @ ''P0'' # [''P9'']) 1 =
     (Inl AssertionError,
      example_started\<lparr>projects_time_sequence := [(- 2, ''P0''), (0, ''P1''), (0, ''P2'')],
         used_projects := [''P0'', ''P1'', ''P2''],
         active_projects := [''P0'', ''P1'', ''P2''],
         projects_first_day := [0, 1, 1]\<rparr>)"
proof -
  have 1: "distinct [''P1'', ''P2'']" by simp
  have 2: "set [''P1'', ''P2''] \<inter> set (used_projects example_started) = {}"
    by (simp add: example_started_def)
  have 3: "list_all (\<lambda>q. map_of (projects example_started) q \<noteq> None) [''P1'', ''P2'']"
    by (simp add: example_started_def example_planner_def)
  have 4: "''P0'' \<in> set (used_projects example_started) \<union> set [''P1'', ''P2'']"
    by (simp add: example_started_def)
  have 5: "map (\<lambda>q. (first_day example_started + 1
              - drill (the (map_of (projects example_started) q)), q)) [''P1'', ''P2'']
           = [(0, ''P1''), (0, ''P2'')]"
    by (simp add: example_started_def example_planner_def example_project_def with_metrics_def)
  have 6: "projects_time_sequence example_started = [(- 2, ''P0'')]"
    "used_projects example_started = [''P0'']" "active_projects example_started = [''P0'']"
    "projects_first_day example_started = [0]"
    by (simp_all add: example_started_def)
  show ?thesis
    using add_projects_not_atomic [OF 1 2 3 4, of "[''P9'']" 1]
    unfolding 5 6 by (simp add: numeral_2_eq_2)
qed

subsection \<open>The update of the active projects\<close>

lemma enumerate_filter_pred:
  "(\<forall>k < length zs. R (n + k) \<longleftrightarrow> Q (zs ! k)) \<Longrightarrow>
     map snd (filter (\<lambda>(k, x). R k) (enumerate n zs)) = filter Q zs"
proof (induction zs arbitrary: n)
  case Nil
  then show ?case by simp
next
  case (Cons z zs)
  have "\<forall>k < length zs. R (Suc n + k) \<longleftrightarrow> Q (zs ! k)"
  proof (intro allI impI)
    fix k assume "k < length zs"
    then have "Suc k < length (z # zs)" by simp
    with Cons.prems have "R (n + Suc k) \<longleftrightarrow> Q ((z # zs) ! Suc k)" by blast
    then show "R (Suc n + k) \<longleftrightarrow> Q (zs ! k)" by simp
  qed
  then have ih: "map snd (filter (\<lambda>(k, x). R k) (enumerate (Suc n) zs)) = filter Q zs"
    by (rule Cons.IH)
  from Cons.prems have "R (n + 0) \<longleftrightarrow> Q ((z # zs) ! 0)" by blast
  then have "R n \<longleftrightarrow> Q z" by simp
  with ih show ?case by simp
qed

lemma enumerate_filter_zip:
  "length xs = length ys \<Longrightarrow>
     zip (map snd (filter (\<lambda>(k, x). R k) (enumerate n xs)))
         (map snd (filter (\<lambda>(k, x). R k) (enumerate n ys)))
     = map snd (filter (\<lambda>(k, x). R k) (enumerate n (zip xs ys)))"
  by (induction xs ys arbitrary: n rule: list_induct2) auto

lemma enumerate_filter_length:
  "length xs = length ys \<Longrightarrow>
     length (filter (\<lambda>(k, x). R k) (enumerate n xs))
     = length (filter (\<lambda>(k, x). R k) (enumerate n ys))"
  by (induction xs ys arbitrary: n rule: list_induct2) auto

lemma np_delete_nat:
  "list_all (\<lambda>k. k < length xs) ks \<Longrightarrow>
     np_delete xs (map int ks)
       = Inr (map snd (filter (\<lambda>(k, x). k \<notin> set ks) (enumerate 0 xs)))"
proof -
  assume a: "list_all (\<lambda>k. k < length xs) ks"
  then have 1: "list_all (\<lambda>i. - int (length xs) \<le> i \<and> i < int (length xs)) (map int ks)"
    by (simp add: list_all_iff)
  have 2: "map (\<lambda>i. if i < 0 then int (length xs) + i else i) (map int ks) = map int ks"
    by simp
  have 3: "\<And>k. (int k \<notin> int ` set ks) = (k \<notin> set ks)" by auto
  show ?thesis unfolding np_delete_def 2 using 1 by (simp add: 3)
qed

lemma effective_length_projects:
  "projects s' = projects s \<Longrightarrow> effective_length s' = effective_length s"
  by (auto simp: effective_length_def fun_eq_iff)

lemma update_scan_result:
  "p + length rest = length (projects_first_day s)
   \<Longrightarrow> list_all (\<lambda>q. map_of (projects s) q \<noteq> None) rest
   \<Longrightarrow> update_scan s day p rest removed =
        Inr (removed @ map int (filter (\<lambda>k. day - projects_first_day s ! k
                                      = effective_length s (rest ! (k - p)))
                                  [p..<p + length rest]))"
proof (induction rest arbitrary: p removed)
  case Nil
  then show ?case by simp
next
  case (Cons q rest)
  from Cons.prems obtain pr where pr: "map_of (projects s) q = Some pr" by auto
  from Cons.prems have lt: "p < length (projects_first_day s)" by simp
  then have ix: "py_index (projects_first_day s) (int p) = Inr (projects_first_day s ! p)"
    by (simp add: py_index_def)
  have el: "effective_length s q = int (length (effective pr))"
    by (simp add: effective_length_def pr)
  let ?c = "day - projects_first_day s ! p = effective_length s q"
  let ?removed' = "if ?c then removed @ [int p] else removed"
  have step: "update_scan s day p (q # rest) removed = update_scan s day (Suc p) rest ?removed'"
    by (simp add: ix pr el)
  have ih: "update_scan s day (Suc p) rest ?removed' =
        Inr (?removed' @ map int (filter (\<lambda>k. day - projects_first_day s ! k
                                      = effective_length s (rest ! (k - Suc p)))
                                  [Suc p..<Suc p + length rest]))"
    using Cons.prems by (intro Cons.IH) auto
  have f: "filter (\<lambda>k. day - projects_first_day s ! k = effective_length s (rest ! (k - Suc p)))
             [Suc p..<Suc p + length rest]
         = filter (\<lambda>k. day - projects_first_day s ! k = effective_length s ((q # rest) ! (k - p)))
             [Suc p..<Suc p + length rest]"
  proof (rule filter_cong)
    fix k assume "k \<in> set [Suc p..<Suc p + length rest]"
    then have "k - p = Suc (k - Suc p)" by auto
    then show "(day - projects_first_day s ! k = effective_length s (rest ! (k - Suc p)))
        = (day - projects_first_day s ! k = effective_length s ((q # rest) ! (k - p)))"
      by simp
  qed simp
  have "p < p + length (q # rest)" by simp
  from upt_conv_Cons [OF this]
  have u: "[p..<p + length (q # rest)] = p # [Suc p..<Suc p + length rest]" by simp
  show ?case unfolding step ih f u by simp
qed

lemma update_result:
  assumes len: "length (active_projects s) = length (projects_first_day s)"
    and cat: "list_all (\<lambda>p. map_of (projects s) p \<noteq> None) (active_projects s)"
  shows "\<exists>s'. update_simulatenous_projects s day = (Inr (), s')
     \<and> active_pairs s' = filter (\<lambda>(p, fd). day - fd \<noteq> effective_length s p) (active_pairs s)
     \<and> length (active_projects s') = length (projects_first_day s')
     \<and> set (active_projects s') \<subseteq> set (active_projects s)
     \<and> projects s' = projects s \<and> used_projects s' = used_projects s"
proof -
  let ?n = "length (active_projects s)"
  let ?ks = "filter (\<lambda>k. day - projects_first_day s ! k
                        = effective_length s (active_projects s ! k)) [0..<?n]"
  have scan: "update_scan s day 0 (active_projects s) [] = Inr (map int ?ks)"
    using update_scan_result [of 0 "active_projects s" s day "[]"] len cat by simp
  have in1: "list_all (\<lambda>k. k < length (projects_first_day s)) ?ks"
    using len by (simp add: list_all_iff)
  have in2: "list_all (\<lambda>k. k < length (active_projects s)) ?ks"
    by (simp add: list_all_iff)
  let ?R = "\<lambda>k. k \<notin> set ?ks"
  let ?fds = "map snd (filter (\<lambda>(k, x). ?R k) (enumerate 0 (projects_first_day s)))"
  let ?act = "map snd (filter (\<lambda>(k, x). ?R k) (enumerate 0 (active_projects s)))"
  let ?s' = "s\<lparr>projects_first_day := ?fds, active_projects := ?act\<rparr>"
  have upd: "update_simulatenous_projects s day = (Inr (), ?s')"
    unfolding update_simulatenous_projects_def scan
    by (simp add: remove_projects_def np_delete_nat [OF in1] np_delete_nat [OF in2])
  have z: "zip ?act ?fds
      = map snd (filter (\<lambda>(k, x). ?R k) (enumerate 0 (active_pairs s)))"
    unfolding active_pairs_def using len by (rule enumerate_filter_zip)
  have "\<forall>k < length (active_pairs s).
          ?R (0 + k) \<longleftrightarrow> (\<lambda>(p, fd). day - fd \<noteq> effective_length s p) (active_pairs s ! k)"
    using len by (auto simp: active_pairs_def)
  then have "map snd (filter (\<lambda>(k, x). ?R k) (enumerate 0 (active_pairs s)))
       = filter (\<lambda>(p, fd). day - fd \<noteq> effective_length s p) (active_pairs s)"
    by (rule enumerate_filter_pred)
  with z have pairs: "active_pairs ?s'
       = filter (\<lambda>(p, fd). day - fd \<noteq> effective_length s p) (active_pairs s)"
    by (simp add: active_pairs_def)
  have "length ?act = length ?fds"
    using enumerate_filter_length [OF len, of ?R 0] by simp
  moreover have "set ?act \<subseteq> set (active_projects s)"
    by (auto simp: in_set_enumerate_eq)
  ultimately show ?thesis using upd pairs by auto
qed

subsection \<open>The active projects during the simulation\<close>

lemma sim_inv_init:
  "Projects_Planner_init quad year_of fday per raw kw = Inr s \<Longrightarrow> sim_inv 0 s"
  by (simp add: sim_inv_def active_pairs_def init_used)

lemma add_project_sequence_outcome:
  "add_project_sequence s p fd = (Inr u, s1) \<Longrightarrow> map_of (projects s) p \<noteq> None"
  by (auto simp: add_project_sequence_def split: option.splits)

lemma add_projects_sim_inv:
  "add_projects s ps d = (r, s') \<Longrightarrow> sim_inv d s \<Longrightarrow> sim_inv d s'"
proof (induction ps arbitrary: s)
  case Nil
  then show ?case by simp
next
  case (Cons p ps)
  show ?case
  proof (cases "p \<in> set (used_projects s)")
    case True
    with Cons.prems show ?thesis by simp
  next
    case False
    obtain r1 s1 where a: "add_project_sequence s p d = (r1, s1)"
      by (cases "add_project_sequence s p d")
    note f = add_project_sequence_used [OF a]
    have el: "effective_length s1 = effective_length s"
      by (rule effective_length_projects) (simp add: f)
    show ?thesis
    proof (cases r1)
      case (Inl e)
      with Cons.prems False a have "s' = s1" by simp
      with Cons.prems(2) f el show ?thesis by (simp add: sim_inv_def active_pairs_def)
    next
      case (Inr u)
      let ?s2 = "s1\<lparr>used_projects := used_projects s1 @ [p],
                     active_projects := active_projects s1 @ [p],
                     projects_first_day := projects_first_day s1 @ [d]\<rparr>"
      from Cons.prems(1) False a Inr have run: "add_projects ?s2 ps d = (r, s')" by simp
      have incat: "map_of (projects s) p \<noteq> None"
        using a Inr by (auto dest: add_project_sequence_outcome)
      have el2: "effective_length ?s2 = effective_length s"
        by (rule effective_length_projects) (simp add: f)
      have nn: "0 \<le> effective_length s p"
        by (simp add: effective_length_def split: option.splits)
      from Cons.prems(2) have len: "length (active_projects s) = length (projects_first_day s)"
        and cat: "list_all (\<lambda>p. map_of (projects s) p \<noteq> None) (active_projects s)"
        and bnd: "list_all (\<lambda>(p, fd). fd \<le> d \<and> d - fd \<le> effective_length s p)
                    (active_pairs s)"
        by (simp_all add: sim_inv_def)
      have a2: "active_projects ?s2 = active_projects s @ [p]"
        and f2: "projects_first_day ?s2 = projects_first_day s @ [d]"
        and p2: "projects ?s2 = projects s"
        using f by simp_all
      have pairs2: "active_pairs ?s2 = active_pairs s @ [(p, d)]"
        unfolding active_pairs_def a2 f2 using len by simp
      have "sim_inv d ?s2"
        unfolding sim_inv_def pairs2 el2 a2 f2 p2
        using len cat bnd incat nn by simp
      with run show ?thesis by (rule Cons.IH)
    qed
  qed
qed

lemma ordering_sim_inv:
  "projects_ordering s = (r, s') \<Longrightarrow> sim_inv d s \<Longrightarrow> sim_inv d s'"
proof -
  assume a: "projects_ordering s = (r, s')" and i: "sim_inv d s"
  from a have "s' = s \<or> (\<exists>sq. s' = s\<lparr>projects_sequence := sq\<rparr>)"
    by (auto simp: projects_ordering_def Let_def split: list.splits if_splits)
  then show ?thesis
    using i by (auto simp: sim_inv_def active_pairs_def effective_length_def)
qed

lemma production_update:
  "project_production s d = (Inr P, s') \<Longrightarrow> update_simulatenous_projects s d = (Inr (), s')"
  by (auto simp: project_production_def split: prod.splits sum.splits)

lemma update_sim_inv:
  assumes "sim_inv d s" and "update_simulatenous_projects s d = (Inr (), s')"
  shows "sim_inv (d + 1) s'"
    and "list_all (\<lambda>(p, fd). fd \<le> d \<and> d - fd < effective_length s p) (active_pairs s')"
proof -
  from assms(1) have len: "length (active_projects s) = length (projects_first_day s)"
    and cat: "list_all (\<lambda>p. map_of (projects s) p \<noteq> None) (active_projects s)"
    and bnd: "list_all (\<lambda>(p, fd). fd \<le> d \<and> d - fd \<le> effective_length s p) (active_pairs s)"
    by (simp_all add: sim_inv_def)
  from update_result [OF len cat, of d] assms(2)
  have pairs: "active_pairs s' = filter (\<lambda>(p, fd). d - fd \<noteq> effective_length s p) (active_pairs s)"
    and len': "length (active_projects s') = length (projects_first_day s')"
    and sub: "set (active_projects s') \<subseteq> set (active_projects s)"
    and pr: "projects s' = projects s"
    by auto
  have el: "effective_length s' = effective_length s"
    using pr by (rule effective_length_projects)
  show strict: "list_all (\<lambda>(p, fd). fd \<le> d \<and> d - fd < effective_length s p) (active_pairs s')"
    unfolding pairs using bnd by (auto simp: list_all_iff)
  have cat': "list_all (\<lambda>p. map_of (projects s') p \<noteq> None) (active_projects s')"
    using cat sub pr by (auto simp: list_all_iff)
  have "list_all (\<lambda>(p, fd). fd \<le> d + 1 \<and> d + 1 - fd \<le> effective_length s' p) (active_pairs s')"
    using strict unfolding el by (auto simp: list_all_iff)
  with len' cat' show "sim_inv (d + 1) s'" by (simp add: sim_inv_def)
qed

lemma sim_state_inv: "sim_state d s \<Longrightarrow> sim_inv d s"
proof (induction rule: sim_state.induct)
  case (sim_built quad year_of fday per raw kw s)
  then show ?case by (rule sim_inv_init)
next
  case (sim_added d s ps r s')
  then show ?case by (auto intro: add_projects_sim_inv)
next
  case (sim_ordered d s r s')
  then show ?case by (auto intro: ordering_sim_inv)
next
  case (sim_produced d s P s')
  then show ?case by (auto intro: update_sim_inv(1) production_update)
qed

text \<open>
  Claim C3. In every state of the day-by-day simulation, on day \<open>d\<close>, the update
  step succeeds and removes exactly the active pairs (project, first day) with
  \<open>d - first day\<close> equal to the length of the project's effective production; the
  pairs it keeps stay in their order. No pair is removed earlier, since the
  update of a day removes only the pairs exhausted on that very day, and none
  is present later: every pair present before the update has
  \<open>first day \<le> d \<le> first day + length\<close>, every pair left after it has
  \<open>d < first day + length\<close>.
\<close>

theorem active_pair_removed_exactly_when_exhausted:
  assumes "sim_state d s"
  shows "\<exists>s'. update_simulatenous_projects s d = (Inr (), s')
     \<and> active_pairs s' = filter (\<lambda>(p, fd). d - fd \<noteq> effective_length s p) (active_pairs s)
     \<and> list_all (\<lambda>(p, fd). fd \<le> d \<and> d - fd \<le> effective_length s p) (active_pairs s)
     \<and> list_all (\<lambda>(p, fd). fd \<le> d \<and> d - fd < effective_length s p) (active_pairs s')"
proof -
  have inv: "sim_inv d s" using assms by (rule sim_state_inv)
  then have len: "length (active_projects s) = length (projects_first_day s)"
    and cat: "list_all (\<lambda>p. map_of (projects s) p \<noteq> None) (active_projects s)"
    and bnd: "list_all (\<lambda>(p, fd). fd \<le> d \<and> d - fd \<le> effective_length s p) (active_pairs s)"
    by (simp_all add: sim_inv_def)
  from update_result [OF len cat, of d] obtain s' where
    upd: "update_simulatenous_projects s d = (Inr (), s')"
    and pairs: "active_pairs s' = filter (\<lambda>(p, fd). d - fd \<noteq> effective_length s p) (active_pairs s)"
    by blast
  from update_sim_inv(2) [OF inv upd] upd pairs bnd show ?thesis by blast
qed

lemma example_started_production:
  "d \<in> {0, 1, 2} \<Longrightarrow> project_production example_started d = (Inr 10, example_started)"
  by (auto simp: project_production_def update_simulatenous_projects_def remove_projects_def
      np_delete_def py_index_def example_started_def example_planner_def with_metrics_def
      enumerate_eq_zip)

lemma example_started_day3: "sim_state 3 example_started"
proof -
  have 0: "sim_state 0 example_started"
    by (rule sim_added [OF sim_built [OF example_planner_built] example_started_added])
  have 1: "sim_state (0 + 1) example_started"
    by (rule sim_produced [OF 0]) (simp add: example_started_production)
  then have "sim_state 1 example_started" by simp
  then have 2: "sim_state (1 + 1) example_started"
    by (rule sim_produced) (simp add: example_started_production)
  then have "sim_state 2 example_started" by simp
  then have "sim_state (2 + 1) example_started"
    by (rule sim_produced) (simp add: example_started_production)
  then show ?thesis by simp
qed

theorem active_pair_removed_exactly_when_exhausted_witness:
  "sim_state 3 example_started
   \<and> active_pairs example_started = [(''P0'', 0)]
   \<and> effective_length example_started ''P0'' = 3
   \<and> fst (update_simulatenous_projects example_started 3) = Inr ()
   \<and> active_pairs (snd (update_simulatenous_projects example_started 3)) = []"
proof -
  have p: "active_pairs example_started = [(''P0'', 0)]"
    by (simp add: active_pairs_def example_started_def)
  have l: "effective_length example_started ''P0'' = 3"
    by (simp add: effective_length_def example_started_def example_planner_def with_metrics_def)
  from active_pair_removed_exactly_when_exhausted [OF example_started_day3]
  obtain s' where u: "update_simulatenous_projects example_started 3 = (Inr (), s')"
    and f: "active_pairs s' = filter (\<lambda>(p, fd). 3 - fd \<noteq> effective_length example_started p)
                                  (active_pairs example_started)"
    by blast
  from f have "active_pairs s' = []" unfolding p by (simp add: l)
  with u p l example_started_day3 show ?thesis by simp
qed

subsection \<open>The length of the output of a full run\<close>

lemma run_days_length:
  "run_days s n days production = (Inr out, s')
     \<Longrightarrow> length out = length production + length days"
proof (induction days arbitrary: s n production)
  case Nil
  then show ?case by simp
next
  case (Cons day days)
  obtain r1 s1 where a: "add_planned s n day = (r1, s1)" by (cases "add_planned s n day")
  from Cons.prems a obtain n1 where r1: "r1 = Inr n1" by (cases r1) auto
  obtain r2 s2 where p: "project_production s1 day = (r2, s2)"
    by (cases "project_production s1 day")
  from Cons.prems a r1 p obtain P where r2: "r2 = Inr P" by (cases r2) auto
  from Cons.prems a r1 p r2 have "run_days s2 n1 days (production @ [P]) = (Inr out, s')"
    by simp
  from Cons.IH [OF this] show ?case by simp
qed

lemma ordering_period:
  "projects_ordering s = (r, s') \<Longrightarrow> period s' = period s"
  by (auto simp: projects_ordering_def Let_def split: list.splits if_splits)

lemma add_project_sequence_period:
  "add_project_sequence s p fd = (r, s1) \<Longrightarrow> period s1 = period s"
  by (auto simp: add_project_sequence_def split: option.splits)

lemma add_projects_period:
  "add_projects s ps fd = (r, s') \<Longrightarrow> period s' = period s"
proof (induction ps arbitrary: s)
  case Nil
  then show ?case by simp
next
  case (Cons p ps)
  show ?case
  proof (cases "p \<in> set (used_projects s)")
    case True
    with Cons.prems show ?thesis by simp
  next
    case False
    obtain r1 s1 where a: "add_project_sequence s p fd = (r1, s1)"
      by (cases "add_project_sequence s p fd")
    note f = add_project_sequence_period [OF a]
    show ?thesis
    proof (cases r1)
      case (Inl e)
      with Cons.prems False a f show ?thesis by simp
    next
      case (Inr u)
      let ?s2 = "s1\<lparr>used_projects := used_projects s1 @ [p],
                     active_projects := active_projects s1 @ [p],
                     projects_first_day := projects_first_day s1 @ [fd]\<rparr>"
      from Cons.prems(1) False a Inr have "add_projects ?s2 ps fd = (r, s')" by simp
      from Cons.IH [OF this] f show ?thesis by simp
    qed
  qed
qed

lemma add_early_period:
  "add_early s seq n = (r, s') \<Longrightarrow> period s' = period s"
proof (induction seq arbitrary: s n)
  case Nil
  then show ?case by simp
next
  case (Cons entry rest)
  obtain start ind where entry: "entry = (start, ind)" by (cases entry)
  show ?case
  proof (cases "start < 0")
    case False
    with Cons.prems(1) entry have "add_early s rest n = (r, s')" by simp
    then show ?thesis by (rule Cons.IH)
  next
    case True
    show ?thesis
    proof (cases "py_index (projects_names s) (int ind)")
      case (Inl e)
      with Cons.prems True entry show ?thesis by simp
    next
      case (Inr pname)
      obtain r1 s1 where a: "add_projects s [pname] 0 = (r1, s1)"
        by (cases "add_projects s [pname] 0")
      note f = add_projects_period [OF a]
      show ?thesis
      proof (cases r1)
        case (Inl e)
        with Cons.prems(1) True entry \<open>py_index (projects_names s) (int ind) = Inr pname\<close> a f
        show ?thesis by (simp del: add_projects.simps)
      next
        case (Inr u)
        with Cons.prems(1) True entry \<open>py_index (projects_names s) (int ind) = Inr pname\<close> a
        have "add_early s1 rest (Suc n) = (r, s')" by (simp del: add_projects.simps)
        from Cons.IH [OF this] f show ?thesis by simp
      qed
    qed
  qed
qed

lemma remove_projects_period:
  "remove_projects s indxs = (r, s') \<Longrightarrow> period s' = period s"
  by (auto simp: remove_projects_def split: sum.splits)

lemma production_period:
  "project_production s day = (r, s') \<Longrightarrow> period s' = period s"
  by (auto simp: project_production_def update_simulatenous_projects_def
      split: sum.splits prod.splits dest: remove_projects_period)

text \<open>
  Claim C6, as amended. For a planner whose period is at least 1, a full run
  \<^verbatim>\<open>__call__\<close> that completes without error returns a list of exactly
  \<^verbatim>\<open>period\<close> daily productions: that of day 0 and one for each of the days
  \<open>1, \<dots>, period - 1\<close>. (The production of day 0 is appended whatever the
  period is, so that a run with a period below 1 returns one entry.)
\<close>

theorem full_run_length:
  assumes "1 \<le> period s"
    and "planner_call s = (Inr production, s')"
  shows "int (length production) = period s"
proof -
  obtain r1 s1 where o: "projects_ordering s = (r1, s1)" by (cases "projects_ordering s")
  from assms(2) o obtain u where r1: "r1 = Inr u" by (cases r1) (auto simp: planner_call_def)
  obtain r2 s2 where e: "add_early s1 (projects_sequence s1) 0 = (r2, s2)"
    by (cases "add_early s1 (projects_sequence s1) 0")
  from assms(2) o r1 e obtain n where r2: "r2 = Inr n"
    by (cases r2) (auto simp: planner_call_def)
  obtain r3 s3 where p: "project_production s2 0 = (r3, s3)"
    by (cases "project_production s2 0")
  from assms(2) o r1 e r2 p obtain P where r3: "r3 = Inr P"
    by (cases r3) (auto simp: planner_call_def)
  from assms(2) o r1 e r2 p r3
  have run: "run_days s3 n [1..period s3 - 1] [P] = (Inr production, s')"
    by (simp add: planner_call_def)
  have "period s3 = period s"
    using ordering_period [OF o] add_early_period [OF e] production_period [OF p] by simp
  with run_days_length [OF run] assms(1) show ?thesis by simp
qed

lemmas run_eval =
  planner_call_def projects_ordering_def argsort_def np_where_def np_take_def
  np_unique_def drill_groups_def sequence_before_def day_entries_def group_entries_def
  projects_length_def projects_names_def add_planned_def add_project_sequence_def
  project_production_def update_simulatenous_projects_def remove_projects_def
  np_delete_def py_index_def with_metrics_def example_project_def
  enumerate_eq_zip Let_def upt_conv_Cons upto.simps

theorem full_run_length_witness:
  "1 \<le> period example_planner
   \<and> period example_planner = 5
   \<and> fst (planner_call example_planner) = Inr [20, 30, 30, 10, 0]
   \<and> int (length [20, 30, 30, 10, 0 :: rat]) = period example_planner"
proof -
  have per: "1 \<le> period example_planner" "period example_planner = 5"
    by (simp_all add: example_planner_def)
  have c: "fst (planner_call example_planner) = Inr [20, 30, 30, 10, 0]"
    by (simp add: run_eval example_planner_def split: prod.splits)
  have "planner_call example_planner
          = (Inr [20, 30, 30, 10, 0], snd (planner_call example_planner))"
    using c by (metis prod.collapse)
  from full_run_length [OF per(1) this] c per show ?thesis by simp
qed

text \<open>
  The claim as first stated, for every run that completes, fails for a period
  below 1: the constructor accepts the period \<open>-2\<close>, the run completes, and its
  output has one entry.
\<close>

theorem full_run_length_counterexample:
  "Projects_Planner_init trapezoid example_year 0 (- 2) example_catalog example_kwargs
     = Inr negative_planner
   \<and> period negative_planner = - 2
   \<and> fst (planner_call negative_planner) = Inr [20]"
proof -
  have b: "Projects_Planner_init trapezoid example_year 0 (- 2) example_catalog example_kwargs
     = Inr negative_planner"
    by (simp add: Projects_Planner_init_def example_catalog_def example_kwargs_def
      default_kwargs_def negative_planner_def example_planner_def example_project_def
      py_index_def np_arange_def trapezoid_def example_year_def order_rel_def order_abs_def
      argsort_def np_take_def with_metrics_def upt_conv_Cons Let_def)
  have c: "fst (planner_call negative_planner) = Inr [20]"
    by (simp add: run_eval negative_planner_def example_planner_def split: prod.splits)
  from b c show ?thesis by (simp add: negative_planner_def)
qed

subsection \<open>The first project under the policy \<^verbatim>\<open>'minmax'\<close>\<close>

lemmas example_eval =
  py_index_def np_take_def argsort_def np_where_def np_unique_def np_mask_def
  left_projects_ind_def projects_names_def projects_length_def add_project_sequence_def
  example_project_def with_metrics_def drill_groups_def sequence_before_def day_entries_def
  group_entries_def Let_def upt_conv_Cons

text \<open>
  Claim C1. The claim asks for the feasible project of highest peak. The loop
  reads \<^verbatim>\<open>max_project_prod_sort[n]\<close>, which is already the catalogue position of
  the project ranked \<open>n\<close>, and uses it as a position in
  \<^verbatim>\<open>order_projects_names_abs\<close>, the names in ranked order. In the example
  catalogue (peaks 2, 3, 1 for P0, P1, P2; P0 and P1 may start in 2000) the
  first project added is P0, of peak 2, although P1, of peak 3, is feasible.
\<close>

theorem minmax_first_project_example:
  "search_first_project example_planner empty_draws zero_choice = Some (Inr (), example_started)
   \<and> used_projects example_started = [''P0'']
   \<and> map (\<lambda>(k, pr). (k, max_prod pr, spud pr \<le> first_year example_planner))
        (projects example_planner)
      = [(''P0'', 2, True), (''P1'', 3, True), (''P2'', 1, False)]"
  by (simp add: search_first_project_def example_eval example_planner_def example_started_def
      minmax_first_loop.simps)

subsection \<open>The ordering scenario with two early projects\<close>

text \<open>
  Claim C2. For the catalogue of A and B, both early, the early part of the
  sequence is computed as the claim says, \<open>[(-2, A), (-1, B)]\<close> by catalogue
  positions, but no project is late: \<^verbatim>\<open>np.hstack\<close> receives the empty list of
  groups and raises, so \<^verbatim>\<open>projects_ordering\<close> and the full run fail with
  ValueError and no planned sequence is stored.
\<close>

theorem projects_ordering_two_early:
  "projects_ordering two_planner = (Inl ValueError, two_planner)
   \<and> planner_call two_planner = (Inl ValueError, two_planner)
   \<and> sequence_before (map (\<lambda>(k, pr). drill pr) (projects two_planner)) 2
        (drill_groups [0, 1] [2, 1]) = [(- 2, 0), (- 1, 1)]"
  by (simp add: projects_ordering_def planner_call_def example_eval two_planner_def
      numeral_2_eq_2)

text \<open>With a late project in the catalogue the ordering succeeds.\<close>

lemma projects_ordering_example:
  "projects_ordering example_planner
     = (Inr (), example_planner\<lparr>projects_sequence := [(- 2, 0), (- 1, 1), (0, 2)]\<rparr>)"
  by (simp add: projects_ordering_def example_eval example_planner_def numeral_2_eq_2)

subsection \<open>The next project under the random policy\<close>

lemma random_next_loop_raises:
  "\<exists>e. random_next_loop s left_projects_name choice k = Some (Inl e)"
  by (subst random_next_loop.simps) (simp add: read_year_def split: sum.splits option.splits)

lemma random_next_never_accepts:
  assumes "next_project s = Random"
  shows "\<exists>e. search_next_project s year_of choice day last_prod = Some (Inl e, s)"
proof -
  let ?left = "map fst (filter snd (zip (projects_names s) (left_projects_ind s)))"
  obtain e where "random_next_loop s ?left choice 0 = Some (Inl e)"
    using random_next_loop_raises by blast
  then show ?thesis using assms by (simp add: search_next_project_def Let_def)
qed

text \<open>
  Claim C7. The claim has the random policy accept the first drawn project
  whose spud year is at most the current calendar year. The code compares the
  spud year with \<^verbatim>\<open>year\<close>, a name that is never bound, where the other branches
  use \<^verbatim>\<open>current_year\<close>: the first comparison raises NameError and no project
  is ever accepted. In the example, P0 is unused and its spud year 1998 is below
  the current year 2000.
\<close>

theorem random_next_project_example:
  "search_next_project example_planner example_year zero_choice 0 0
     = Some (Inl NameError, example_planner)
   \<and> next_project example_planner = Random
   \<and> used_projects example_planner = []
   \<and> map (\<lambda>(k, pr). (k, spud pr \<le> example_year (first_day example_planner + 0)))
        (projects example_planner)
      = [(''P0'', True), (''P1'', True), (''P2'', False)]"
  by (simp add: search_next_project_def example_eval example_planner_def
      random_next_loop.simps read_year_def zero_choice_def example_year_def)

subsection \<open>Total production over a collapsed window\<close>

lemma projects_total_prod_collapsed:
  "list_all (\<lambda>(k, pr). year_in_range pr mn) raw \<Longrightarrow>
     projects_total_prod quad mn mn raw
       = Inr (map (\<lambda>(k, pr). quad (curve pr) (year_at pr mn) (year_at pr mn)) raw)"
proof (induction raw)
  case Nil
  then show ?case by simp
next
  case (Cons a raw)
  obtain k pr where a: "a = (k, pr)" by (cases a)
  from Cons.prems a have "year_in_range pr mn" by simp
  then have "py_index (years pr) mn = Inr (year_at pr mn)"
    by (auto simp: year_in_range_def year_at_def py_index_def)
  with Cons a show ?case by simp
qed

text \<open>
  Claim C5, as amended. \<^verbatim>\<open>projects_total_prod\<close> has no test on the window and
  the code has no NumericalError. With \<^verbatim>\<open>min_year\<close> equal to \<^verbatim>\<open>max_year\<close>, and
  the index in range for every project, it does not fail: the total of each
  project is what the integrator returns over the interval from
  \<^verbatim>\<open>years[min_year]\<close> to itself, hence 0 for an integrator that gives 0 on an
  interval of length zero, as \<^verbatim>\<open>quad\<close> does.
\<close>

theorem total_production_collapsed_window:
  assumes "list_all (\<lambda>(k, pr). year_in_range pr mn) raw"
  shows "projects_total_prod quad mn mn raw
           = Inr (map (\<lambda>(k, pr). quad (curve pr) (year_at pr mn) (year_at pr mn)) raw)
     \<and> ((\<forall>f a. quad f a a = 0)
          \<longrightarrow> projects_total_prod quad mn mn raw = Inr (replicate (length raw) 0))"
proof -
  have 1: "projects_total_prod quad mn mn raw
           = Inr (map (\<lambda>(k, pr). quad (curve pr) (year_at pr mn) (year_at pr mn)) raw)"
    using assms by (rule projects_total_prod_collapsed)
  have 2: "projects_total_prod quad mn mn raw = Inr (replicate (length raw) 0)"
    if "\<forall>f a. quad f a a = 0"
  proof -
    have "map (\<lambda>(k, pr). quad (curve pr) (year_at pr mn) (year_at pr mn)) raw
            = replicate (length raw) 0"
      using that by (induction raw) auto
    with 1 show ?thesis by simp
  qed
  from 1 2 show ?thesis by blast
qed

theorem total_production_collapsed_window_witness:
  "list_all (\<lambda>(k, pr). year_in_range pr 0) example_catalog
   \<and> (\<forall>f a. trapezoid f a a = 0)
   \<and> projects_total_prod trapezoid 0 0 example_catalog = Inr (replicate (length example_catalog) 0)"
proof -
  have h: "list_all (\<lambda>(k, pr). year_in_range pr 0) example_catalog"
    by (simp add: example_catalog_def example_project_def year_in_range_def)
  have z: "\<forall>f a. trapezoid f a a = 0" by (simp add: trapezoid_def)
  from total_production_collapsed_window [OF h, of trapezoid] z h show ?thesis by blast
qed

theorem total_production_collapsed_window_counterexample:
  "projects_total_prod trapezoid 0 0 example_catalog = Inr [0, 0, 0]"
  by (simp add: example_catalog_def example_project_def py_index_def trapezoid_def)

subsection \<open>Searches that find no feasible candidate\<close>

lemma py_index_error: "py_index xs i = Inl e \<Longrightarrow> e = IndexError"
  by (auto simp: py_index_def split: if_splits)

lemma py_index_member: "py_index xs i = Inr x \<Longrightarrow> x \<in> set xs"
  by (auto simp: py_index_def split: if_splits)

lemma minmax_first_loop_exhausts:
  "list_all (infeasible_first_minmax s) (order_projects_names_abs s)
     \<Longrightarrow> minmax_first_loop s srt n = Inl IndexError"
proof (induction s srt n rule: minmax_first_loop.induct)
  case (1 s srt n)
  show ?case
  proof (cases "py_index srt n")
    case (Inl e)
    then show ?thesis
      by (subst minmax_first_loop.simps) (simp add: py_index_error)
  next
    case ind: (Inr ind)
    show ?thesis
    proof (cases "py_index (order_projects_names_abs s) (int ind)")
      case (Inl e)
      with ind show ?thesis
        by (subst minmax_first_loop.simps) (simp add: py_index_error)
    next
      case pname: (Inr pname)
      then have "pname \<in> set (order_projects_names_abs s)" by (rule py_index_member)
      with "1.prems" have "infeasible_first_minmax s pname" by (simp add: list_all_iff)
      then obtain pr where pr: "map_of (projects s) pname = Some pr"
        and inf: "\<not> spud pr \<le> first_year s"
        by (auto simp: infeasible_first_minmax_def split: option.splits)
      have "minmax_first_loop s srt (n - 1) = Inl IndexError"
        by (rule "1.IH" [OF ind pname pr inf "1.prems"])
      with ind pname pr inf show ?thesis
        by (subst minmax_first_loop.simps) simp
    qed
  qed
qed

lemma mean_first_loop_exhausts:
  "list_all (\<lambda>i. list_all (\<lambda>ind. ind < length (projects_names s)) (combs ! i)
               \<and> all_spud_before s (map (\<lambda>ind. projects_names s ! ind) (combs ! i)) = Inr False)
            srt
     \<Longrightarrow> mean_first_loop s combs srt n = Inl IndexError"
proof (induction s combs srt n rule: mean_first_loop.induct)
  case (1 s combs srt n)
  show ?case
  proof (cases "n < length srt")
    case False
    then show ?thesis by (subst mean_first_loop.simps) simp
  next
    case True
    then have "srt ! n \<in> set srt" by simp
    with "1.prems" have r: "list_all (\<lambda>ind. ind < length (projects_names s)) (combs ! (srt ! n))"
      and a: "all_spud_before s (map (\<lambda>ind. projects_names s ! ind) (combs ! (srt ! n))) = Inr False"
      by (simp_all add: list_all_iff)
    have nf: "\<not> False" by simp
    have "mean_first_loop s combs srt (Suc n) = Inl IndexError"
      by (rule "1.IH" [OF True refl r refl a nf "1.prems"])
    with True r a show ?thesis
      by (subst mean_first_loop.simps) (simp add: Let_def)
  qed
qed

lemma argsort_set: "set (argsort a) = {0..<length a}"
  by (simp add: argsort_def)

lemma mean_next_loop_exhausts:
  assumes "\<forall>p \<in> set ord. \<exists>pr. map_of (projects s) p = Some pr
              \<and> \<not> (spud pr \<le> cy \<and> cy \<le> year_of (cd - drill pr))"
  shows "mean_next_loop s year_of cd cy ord n = Inl IndexError"
proof (induction "length ord - n" arbitrary: n rule: less_induct)
  case less
  show ?case
  proof (cases "py_index ord (int n)")
    case (Inl e)
    then show ?thesis
      by (subst mean_next_loop.simps) (simp add: py_index_error)
  next
    case pname: (Inr pname)
    then have mem: "pname \<in> set ord" by (rule py_index_member)
    have "\<exists>pr. map_of (projects s) pname = Some pr
              \<and> \<not> (spud pr \<le> cy \<and> cy \<le> year_of (cd - drill pr))"
      by (rule bspec [OF assms mem])
    then obtain pr where pr: "map_of (projects s) pname = Some pr"
      and inf: "\<not> (spud pr \<le> cy \<and> cy \<le> year_of (cd - drill pr))"
      by (elim exE conjE)
    from pname have "n < length ord" by (simp add: py_index_def split: if_splits)
    then have "length ord - Suc n < length ord - n" by simp
    then have rec: "mean_next_loop s year_of cd cy ord (Suc n) = Inl IndexError"
      by (rule less.hyps)
    have "mean_next_loop s year_of cd cy ord n
            = mean_next_loop s year_of cd cy ord (Suc n)"
      by (subst mean_next_loop.simps) (simp add: pname pr inf Let_def)
    with rec show ?thesis by simp
  qed
qed

lemma random_first_loop_diverges:
  assumes range: "\<forall>k. choice k < length (projects s)"
    and inf: "list_all (infeasible_first_random s) (projects_names s)"
  shows "random_first_loop s choice k = None"
proof -
  have never: "\<not> (s' = s \<and> choice' = choice)"
    if ret: "random_first_loop s' choice' k' = Some y" for s' choice' k' y
  proof (rule random_first_loop.raw_induct
      [where P = "\<lambda>a b c d. \<not> (a = s \<and> b = choice)", OF _ ret])
    fix loop :: "planner \<Rightarrow> (nat \<Rightarrow> nat) \<Rightarrow> nat \<Rightarrow> (error + pid) option"
    fix s1 :: planner and choice1 :: "nat \<Rightarrow> nat" and k1 :: nat and y1 :: "error + pid"
    assume ih: "\<And>a b c d. loop a b c = Some d \<Longrightarrow> \<not> (a = s \<and> b = choice)"
    assume body:
      "(case py_index (projects_names s1) (int (choice1 k1)) of
          Inl e \<Rightarrow> Some (Inl e)
        | Inr pname \<Rightarrow>
            (case map_of (projects s1) pname of
               None \<Rightarrow> Some (Inl KeyError)
             | Some pr \<Rightarrow>
                 if spud pr < first_year s1 then Some (Inr pname)
                 else loop s1 choice1 (Suc k1))) = Some y1"
    show "\<not> (s1 = s \<and> choice1 = choice)"
    proof
      assume eq: "s1 = s \<and> choice1 = choice"
      from range have lt: "choice k1 < length (projects_names s)"
        by (simp add: projects_names_def)
      then have ix: "py_index (projects_names s) (int (choice k1))
                       = Inr (projects_names s ! choice k1)"
        by (simp add: py_index_def)
      from lt inf have "infeasible_first_random s (projects_names s ! choice k1)"
        by (simp add: list_all_iff)
      then obtain pr where pr: "map_of (projects s) (projects_names s ! choice k1) = Some pr"
        and no: "\<not> spud pr < first_year s"
        by (auto simp: infeasible_first_random_def split: option.splits)
      from body eq ix pr no have "loop s choice (Suc k1) = Some y1" by simp
      from ih [OF this] show False by simp
    qed
  qed
  show ?thesis
  proof (cases "random_first_loop s choice k")
    case None
    then show ?thesis .
  next
    case (Some y)
    from never [OF Some] show ?thesis by simp
  qed
qed

lemma masked_names:
  "map fst (filter snd (zip xs (map f xs))) = filter f xs"
  by (induction xs) auto

lemma masked_length:
  "length a = length b \<Longrightarrow> length b = length msk
     \<Longrightarrow> length (filter snd (zip a msk)) = length (filter snd (zip b msk))"
  by (induction a b msk rule: list_induct3) auto

lemma np_take_subset:
  "\<forall>i \<in> set idx. i < length xs \<Longrightarrow> set (np_take xs idx) \<subseteq> set xs"
  by (auto simp: np_take_def)

lemma first_minmax_exhausts:
  assumes "first_project s = Minmax"
    and "list_all (infeasible_first_minmax s) (order_projects_names_abs s)"
  shows "search_first_project s draws choice = Some (Inl IndexError, s)"
  using assms(1) by (simp add: search_first_project_def minmax_first_loop_exhausts [OF assms(2)])

lemma first_mean_exhausts:
  assumes "first_project s = Mean" and nf: "no_feasible_draw s draws"
  shows "search_first_project s draws choice = Some (Inl IndexError, s)"
proof -
  let ?combs = "map draws [0..<initial_iters s]"
  let ?sums = "map (\<lambda>indxs. sum_list (np_take (max_project_prod s) indxs)) ?combs"
  let ?diff = "map (\<lambda>c. \<bar>c - global_mean s\<bar>) ?sums"
  let ?srt = "argsort ?diff"
  have guard: "\<not> (0 < initial_iters s \<and> projects_length s = 0)"
  proof
    assume g: "0 < initial_iters s \<and> projects_length s = 0"
    then have "0 \<in> set [0..<initial_iters s]" by simp
    with nf have a: "all_spud_before s (map (\<lambda>ind. projects_names s ! ind) (draws 0)) = Inr False"
      by (simp add: no_feasible_draw_def list_all_iff)
    from g have "projects s = []" by (simp add: projects_length_def)
    then have "map_of (projects s) = Map.empty" by simp
    have "draws 0 = [] \<or> draws 0 \<noteq> []" by simp
    then show False
    proof
      assume "draws 0 = []"
      with a show False by (simp add: all_spud_before_def)
    next
      assume "draws 0 \<noteq> []"
      then have "\<not> list_all (\<lambda>p. map_of (projects s) p \<noteq> None)
                    (map (\<lambda>ind. projects_names s ! ind) (draws 0))"
        using \<open>projects s = []\<close> by (cases "draws 0") simp_all
      with a show False by (simp add: all_spud_before_def)
    qed
  qed
  have "list_all (\<lambda>i. list_all (\<lambda>ind. ind < length (projects_names s)) (?combs ! i)
               \<and> all_spud_before s (map (\<lambda>ind. projects_names s ! ind) (?combs ! i)) = Inr False)
            ?srt"
  proof -
    have "\<forall>i \<in> set ?srt. list_all (\<lambda>ind. ind < length (projects_names s)) (?combs ! i)
               \<and> all_spud_before s (map (\<lambda>ind. projects_names s ! ind) (?combs ! i)) = Inr False"
    proof
      fix i assume "i \<in> set ?srt"
      then have lt: "i < initial_iters s" by (simp add: argsort_set)
      then have c: "?combs ! i = draws i" by simp
      from lt have "i \<in> set [0..<initial_iters s]" by simp
      with nf show "list_all (\<lambda>ind. ind < length (projects_names s)) (?combs ! i)
               \<and> all_spud_before s (map (\<lambda>ind. projects_names s ! ind) (?combs ! i)) = Inr False"
        unfolding c by (simp add: no_feasible_draw_def list_all_iff)
    qed
    then show ?thesis by (simp add: list_all_iff)
  qed
  then have e: "mean_first_loop s ?combs ?srt 0 = Inl IndexError"
    by (rule mean_first_loop_exhausts)
  show ?thesis
    unfolding search_first_project_def Let_def e using assms(1) guard by simp
qed

lemma next_mean_exhausts:
  assumes "next_project s = Mean"
    and len: "length (max_project_prod s) = length (projects s)"
    and inf: "list_all (\<lambda>p. p \<in> set (used_projects s) \<or> infeasible_next_mean s year_of day p)
                (projects_names s)"
  shows "search_next_project s year_of choice day last_prod = Some (Inl IndexError, s)"
proof -
  let ?cd = "first_day s + day"
  let ?cy = "year_of ?cd"
  let ?left = "map fst (filter snd (zip (projects_names s) (left_projects_ind s)))"
  let ?diffs = "map (\<lambda>m. m + (last_prod - global_mean s)) (max_project_prod s)"
  let ?new = "map fst (filter snd (zip ?diffs (left_projects_ind s)))"
  let ?ord = "np_take ?left (rev (argsort ?new))"
  have l1: "length (left_projects_ind s) = length ?diffs"
    using len by (simp add: left_projects_ind_def projects_names_def)
  then have msk: "np_mask ?diffs (left_projects_ind s) = Inr ?new"
    by (simp add: np_mask_def)
  have left: "?left = filter (\<lambda>p. p \<notin> set (used_projects s)) (projects_names s)"
    unfolding left_projects_ind_def by (rule masked_names)
  have "length ?new = length ?left"
    using masked_length [of ?diffs "projects_names s" "left_projects_ind s"] l1 len
    by (simp add: left_projects_ind_def projects_names_def)
  then have "\<forall>i \<in> set (rev (argsort ?new)). i < length ?left"
    by (simp add: argsort_set)
  then have sub: "set ?ord \<subseteq> set ?left"
    by (rule np_take_subset)
  have "\<forall>p \<in> set ?ord. \<exists>pr. map_of (projects s) p = Some pr
              \<and> \<not> (spud pr \<le> ?cy \<and> ?cy \<le> year_of (?cd - drill pr))"
  proof
    fix p assume "p \<in> set ?ord"
    with sub have "p \<in> set ?left" by blast
    then have "p \<in> set (projects_names s)" "p \<notin> set (used_projects s)"
      unfolding left by simp_all
    with inf have "infeasible_next_mean s year_of day p" by (auto simp: list_all_iff)
    then show "\<exists>pr. map_of (projects s) p = Some pr
              \<and> \<not> (spud pr \<le> ?cy \<and> ?cy \<le> year_of (?cd - drill pr))"
      by (cases "map_of (projects s) p") (simp_all add: infeasible_next_mean_def)
  qed
  then have e: "mean_next_loop s year_of ?cd ?cy ?ord 0 = Inl IndexError"
    by (rule mean_next_loop_exhausts)
  show ?thesis
    unfolding search_next_project_def Let_def msk using assms(1) by (simp add: e)
qed

lemma first_random_diverges:
  assumes "first_project s = Random" and "projects s \<noteq> []"
    and "\<forall>k. choice k < length (projects s)"
    and "list_all (infeasible_first_random s) (projects_names s)"
  shows "search_first_project s draws choice = None"
  using assms(1,2)
  by (simp add: search_first_project_def projects_length_def
      random_first_loop_diverges [OF assms(3,4)])

lemma late_two_planner_built:
  "Projects_Planner_init trapezoid example_year 0 5 late_two_catalog
     (default_kwargs\<lparr>kw_initial_iters := 2\<rparr>) = Inr late_two_planner"
  by (simp add: Projects_Planner_init_def late_two_catalog_def
      default_kwargs_def late_two_planner_def example_project_def py_index_def np_arange_def
      trapezoid_def example_year_def order_rel_def order_abs_def argsort_def np_take_def
      with_metrics_def upt_conv_Cons Let_def)

lemma mean_first_loop_empty:
  assumes all: "\<forall>i \<in> set srt. combs ! i = []
              \<or> (list_all (\<lambda>ind. ind < length (projects_names s)) (combs ! i)
                 \<and> all_spud_before s (map (\<lambda>ind. projects_names s ! ind) (combs ! i)) = Inr False)"
  shows "\<exists>j. n \<le> j \<and> j < length srt \<and> combs ! (srt ! j) = []
           \<Longrightarrow> mean_first_loop s combs srt n = Inr []"
proof (induction "length srt - n" arbitrary: n rule: less_induct)
  case less
  from less.prems obtain j where j: "n \<le> j" "j < length srt" "combs ! (srt ! j) = []"
    by blast
  then have lt: "n < length srt" by simp
  show ?case
  proof (cases "combs ! (srt ! n) = []")
    case True
    with lt show ?thesis
      by (subst mean_first_loop.simps) (simp add: Let_def all_spud_before_def)
  next
    case False
    from lt have "srt ! n \<in> set srt" by simp
    with all False
    have r: "list_all (\<lambda>ind. ind < length (projects_names s)) (combs ! (srt ! n))"
      and a: "all_spud_before s (map (\<lambda>ind. projects_names s ! ind) (combs ! (srt ! n)))
                = Inr False"
      by blast+
    from False j(3) have "j \<noteq> n" by auto
    with j have ex: "\<exists>j. Suc n \<le> j \<and> j < length srt \<and> combs ! (srt ! j) = []"
      by (intro exI [of _ j]) simp
    from lt have "length srt - Suc n < length srt - n" by simp
    then have rec: "mean_first_loop s combs srt (Suc n) = Inr []"
      using ex by (rule less.hyps)
    have "mean_first_loop s combs srt n = mean_first_loop s combs srt (Suc n)"
      by (subst mean_first_loop.simps) (simp add: lt r a Let_def)
    with rec show ?thesis by simp
  qed
qed

lemma first_mean_empty_draw:
  assumes "first_project s = Mean" and ne: "projects s \<noteq> []"
    and oe: "only_empty_feasible s draws"
  shows "search_first_project s draws choice = Some (Inr (), s)"
proof -
  let ?combs = "map draws [0..<initial_iters s]"
  let ?sums = "map (\<lambda>indxs. sum_list (np_take (max_project_prod s) indxs)) ?combs"
  let ?diff = "map (\<lambda>c. \<bar>c - global_mean s\<bar>) ?sums"
  let ?srt = "argsort ?diff"
  have guard: "\<not> (0 < initial_iters s \<and> projects_length s = 0)"
    using ne by (simp add: projects_length_def)
  have srt: "set ?srt = {0..<initial_iters s}" by (simp add: argsort_set)
  have all: "\<forall>i \<in> set ?srt. ?combs ! i = []
              \<or> (list_all (\<lambda>ind. ind < length (projects_names s)) (?combs ! i)
                 \<and> all_spud_before s (map (\<lambda>ind. projects_names s ! ind) (?combs ! i)) = Inr False)"
  proof
    fix i assume "i \<in> set ?srt"
    then have lt: "i < initial_iters s" unfolding srt by simp
    then have c: "?combs ! i = draws i" by simp
    from lt have "i \<in> set [0..<initial_iters s]" by simp
    with oe show "?combs ! i = []
              \<or> (list_all (\<lambda>ind. ind < length (projects_names s)) (?combs ! i)
                 \<and> all_spud_before s (map (\<lambda>ind. projects_names s ! ind) (?combs ! i)) = Inr False)"
      unfolding c by (simp add: only_empty_feasible_def list_all_iff)
  qed
  from oe obtain it where it: "it < initial_iters s" "draws it = []"
    by (auto simp: only_empty_feasible_def list_ex_iff)
  then have "it \<in> set ?srt" unfolding srt by simp
  then obtain j where j: "j < length ?srt" "?srt ! j = it"
    by (auto simp: in_set_conv_nth)
  have "?combs ! (?srt ! j) = []" using it j by simp
  with j(1) have "\<exists>j. 0 \<le> j \<and> j < length ?srt \<and> ?combs ! (?srt ! j) = []" by blast
  with all have e: "mean_first_loop s ?combs ?srt 0 = Inr []"
    by (rule mean_first_loop_empty)
  show ?thesis
    unfolding search_first_project_def Let_def e using assms(1) guard by simp
qed

lemma first_mean_empty_catalogue:
  assumes "first_project s = Mean" and "projects s = []" and "0 < initial_iters s"
  shows "search_first_project s draws choice = Some (Inl ValueError, s)"
  using assms by (simp add: search_first_project_def projects_length_def)

lemma late_mean_planner_built:
  "Projects_Planner_init trapezoid example_year 0 5 late_catalog default_kwargs
     = Inr (late_planner\<lparr>first_project := Mean\<rparr>)"
  by (simp add: Projects_Planner_init_def late_catalog_def
      default_kwargs_def late_planner_def example_project_def py_index_def np_arange_def
      trapezoid_def example_year_def order_rel_def order_abs_def argsort_def np_take_def
      with_metrics_def upt_conv_Cons Let_def)

text \<open>
  Claim C4, as amended. The code has no InfeasibleSelectionError and no bound
  on retries of its own. The searches that walk a ranking end, when no ranked
  candidate passes the feasibility test, with the IndexError of reading past
  the ranking, and leave the planner as it was:
  the first-project search under \<^verbatim>\<open>'minmax'\<close>, when every ranked name has a spud
  year above the first year;
  the first-project search under \<^verbatim>\<open>'mean'\<close>, when every drawn combination is
  non-empty and has a member whose spud year is not below the first year;
  the next-project search under \<^verbatim>\<open>'mean'\<close>, when every unused project fails
  \<^verbatim>\<open>spud_year <= current_year <= spud_date\<close>.
  Under \<^verbatim>\<open>'mean'\<close> the empty combination passes the test of the first-project
  search (\<^verbatim>\<open>all\<close> of nothing): on a non-empty catalogue, when an empty
  combination is drawn and no other drawn combination passes, the search
  succeeds and adds no project.
\<close>

theorem ranked_search_exhausts:
  "(first_project s = Minmax
      \<and> list_all (infeasible_first_minmax s) (order_projects_names_abs s)
      \<longrightarrow> search_first_project s draws choice = Some (Inl IndexError, s))
   \<and> (first_project s = Mean \<and> no_feasible_draw s draws
      \<longrightarrow> search_first_project s draws choice = Some (Inl IndexError, s))
   \<and> (first_project s = Mean \<and> projects s \<noteq> [] \<and> only_empty_feasible s draws
      \<longrightarrow> search_first_project s draws choice = Some (Inr (), s))
   \<and> (next_project s = Mean
      \<and> length (max_project_prod s) = length (projects s)
      \<and> list_all (\<lambda>p. p \<in> set (used_projects s) \<or> infeasible_next_mean s year_of day p)
           (projects_names s)
      \<longrightarrow> search_next_project s year_of choice day last_prod = Some (Inl IndexError, s))"
  using first_minmax_exhausts first_mean_exhausts first_mean_empty_draw next_mean_exhausts
  by blast

text \<open>
  The example: the catalogue of two late projects, built by the constructor,
  with the draws \<open>[0]\<close> and \<open>[1]\<close>; and the catalogue of one late project, where
  every draw of the policy \<^verbatim>\<open>'mean'\<close> is the empty combination.
\<close>

theorem ranked_search_exhausts_witness:
  "search_first_project (late_two_planner\<lparr>first_project := Minmax\<rparr>) empty_draws zero_choice
     = Some (Inl IndexError, late_two_planner\<lparr>first_project := Minmax\<rparr>)
   \<and> search_first_project late_two_planner single_draws zero_choice
     = Some (Inl IndexError, late_two_planner)
   \<and> search_first_project (late_planner\<lparr>first_project := Mean\<rparr>) empty_draws zero_choice
     = Some (Inr (), late_planner\<lparr>first_project := Mean\<rparr>)
   \<and> search_next_project late_two_planner example_year zero_choice 0 0
     = Some (Inl IndexError, late_two_planner)"
proof -
  let ?s1 = "late_two_planner\<lparr>first_project := Minmax\<rparr>"
  let ?s3 = "late_planner\<lparr>first_project := Mean\<rparr>"
  have a1: "first_project ?s1 = Minmax
      \<and> list_all (infeasible_first_minmax ?s1) (order_projects_names_abs ?s1)"
    by (simp add: late_two_planner_def infeasible_first_minmax_def with_metrics_def
        example_project_def)
  have a2: "first_project late_two_planner = Mean \<and> no_feasible_draw late_two_planner single_draws"
    by (simp add: late_two_planner_def no_feasible_draw_def single_draws_def all_spud_before_def
        projects_names_def with_metrics_def example_project_def upt_conv_Cons numeral_2_eq_2)
  have e: "set [0..<initial_iters ?s3] = {0..<1000}"
    by (simp add: late_planner_def)
  have a3: "first_project ?s3 = Mean \<and> projects ?s3 \<noteq> [] \<and> only_empty_feasible ?s3 empty_draws"
    unfolding only_empty_feasible_def list_all_iff list_ex_iff e
    by (auto simp: late_planner_def empty_draws_def intro: exI [of _ 0])
  have a4: "next_project late_two_planner = Mean
      \<and> length (max_project_prod late_two_planner) = length (projects late_two_planner)
      \<and> list_all (\<lambda>p. p \<in> set (used_projects late_two_planner)
                      \<or> infeasible_next_mean late_two_planner example_year 0 p)
           (projects_names late_two_planner)"
    by (simp add: late_two_planner_def infeasible_next_mean_def projects_names_def
        with_metrics_def example_project_def example_year_def)
  have 1: "search_first_project ?s1 empty_draws zero_choice = Some (Inl IndexError, ?s1)"
    using ranked_search_exhausts [of ?s1 empty_draws zero_choice] a1 by blast
  have 2: "search_first_project late_two_planner single_draws zero_choice
             = Some (Inl IndexError, late_two_planner)"
    using ranked_search_exhausts [of late_two_planner single_draws zero_choice] a2 by blast
  have 3: "search_first_project ?s3 empty_draws zero_choice = Some (Inr (), ?s3)"
    using ranked_search_exhausts [of ?s3 empty_draws zero_choice] a3 by blast
  have 4: "search_next_project late_two_planner example_year zero_choice 0 0
     = Some (Inl IndexError, late_two_planner)"
    using ranked_search_exhausts [where s = late_two_planner and year_of = example_year
        and day = 0 and choice = zero_choice and last_prod = 0] a4 by blast
  from 1 2 3 4 show ?thesis by blast
qed

text \<open>
  The claim itself fails on the catalogue whose only project cannot start
  before 2005: under the random first-project policy the search draws forever,
  and under \<^verbatim>\<open>'minmax'\<close> it fails with IndexError.
\<close>

theorem selection_bounded_counterexample:
  "search_first_project late_planner empty_draws zero_choice = None
   \<and> search_first_project (late_planner\<lparr>first_project := Minmax\<rparr>) empty_draws zero_choice
     = Some (Inl IndexError, late_planner\<lparr>first_project := Minmax\<rparr>)"
proof -
  have r: "first_project late_planner = Random" "projects late_planner \<noteq> []"
    by (simp_all add: late_planner_def)
  have c: "\<forall>k. zero_choice k < length (projects late_planner)"
    by (simp add: late_planner_def zero_choice_def)
  have i: "list_all (infeasible_first_random late_planner) (projects_names late_planner)"
    by (simp add: late_planner_def infeasible_first_random_def projects_names_def
        with_metrics_def example_project_def)
  have 1: "search_first_project late_planner empty_draws zero_choice = None"
    using r c i by (rule first_random_diverges)
  let ?s1 = "late_planner\<lparr>first_project := Minmax\<rparr>"
  have "list_all (infeasible_first_minmax ?s1) (order_projects_names_abs ?s1)"
    by (simp add: late_planner_def infeasible_first_minmax_def with_metrics_def
        example_project_def)
  then have 2: "search_first_project ?s1 empty_draws zero_choice = Some (Inl IndexError, ?s1)"
    by (intro first_minmax_exhausts) simp_all
  from 1 2 show ?thesis by blast
qed

subsection \<open>The full run stays within the simulation\<close>

lemma add_early_sim_state:
  "add_early s seq n = (r, s') \<Longrightarrow> sim_state 0 s \<Longrightarrow> sim_state 0 s'"
proof (induction seq arbitrary: s n)
  case Nil
  then show ?case by simp
next
  case (Cons entry rest)
  obtain start ind where entry: "entry = (start, ind)" by (cases entry)
  show ?case
  proof (cases "start < 0")
    case False
    with Cons.prems(1) entry have "add_early s rest n = (r, s')" by simp
    then show ?thesis using Cons.prems(2) by (rule Cons.IH)
  next
    case True
    show ?thesis
    proof (cases "py_index (projects_names s) (int ind)")
      case (Inl e)
      with Cons.prems True entry show ?thesis by simp
    next
      case (Inr pname)
      obtain r1 s1 where a: "add_projects s [pname] 0 = (r1, s1)"
        by (cases "add_projects s [pname] 0")
      have s1: "sim_state 0 s1" using Cons.prems(2) a by (rule sim_added)
      show ?thesis
      proof (cases r1)
        case (Inl e)
        with Cons.prems(1) True entry \<open>py_index (projects_names s) (int ind) = Inr pname\<close> a s1
        show ?thesis by (simp del: add_projects.simps)
      next
        case (Inr u)
        with Cons.prems(1) True entry \<open>py_index (projects_names s) (int ind) = Inr pname\<close> a
        have "add_early s1 rest (Suc n) = (r, s')" by (simp del: add_projects.simps)
        then show ?thesis using s1 by (rule Cons.IH)
      qed
    qed
  qed
qed

lemma add_planned_sim_state:
  assumes "add_planned s n day = (r, s')" and "sim_state day s"
  shows "sim_state day s'"
proof (cases "n < projects_length s")
  case False
  with assms show ?thesis by (simp add: add_planned_def)
next
  case True
  show ?thesis
  proof (cases "py_index (projects_sequence s) (int n)")
    case (Inl e)
    with assms True show ?thesis by (simp add: add_planned_def)
  next
    case (Inr entry)
    obtain start ind where entry: "entry = (start, ind)" by (cases entry)
    show ?thesis
    proof (cases "py_index (projects_names s) (int ind)")
      case (Inl e)
      with assms True Inr entry show ?thesis by (simp add: add_planned_def)
    next
      case pname: (Inr pname)
      obtain r1 s1 where a: "add_projects s [pname] day = (r1, s1)"
        by (cases "add_projects s [pname] day")
      have s1: "sim_state day s1" using assms(2) a by (rule sim_added)
      from assms(1) True Inr entry pname a have "s' = s1"
        by (cases r1) (simp_all add: add_planned_def del: add_projects.simps)
      with s1 show ?thesis by simp
    qed
  qed
qed

lemma run_days_sim_state:
  "run_days s n [d + 1..e] production = (Inr out, s') \<Longrightarrow> sim_state (d + 1) s
     \<Longrightarrow> sim_state (max (d + 1) (e + 1)) s'"
proof (induction "nat (e - d)" arbitrary: s n d production)
  case 0
  then have "[d + 1..e] = []" by simp
  with 0 show ?case by (auto simp: max_def)
next
  case (Suc k)
  then have le: "d + 1 \<le> e" by simp
  then have days: "[d + 1..e] = (d + 1) # [(d + 1) + 1..e]" by (simp add: upto_rec1)
  obtain r1 s1 where a: "add_planned s n (d + 1) = (r1, s1)"
    by (cases "add_planned s n (d + 1)")
  from Suc.prems(1) a obtain n1 where r1: "r1 = Inr n1" unfolding days by (cases r1) auto
  have st1: "sim_state (d + 1) s1" using a Suc.prems(2) by (rule add_planned_sim_state)
  obtain r2 s2 where p: "project_production s1 (d + 1) = (r2, s2)"
    by (cases "project_production s1 (d + 1)")
  from Suc.prems(1) a r1 p obtain P where r2: "r2 = Inr P" unfolding days by (cases r2) auto
  have st2: "sim_state ((d + 1) + 1) s2" using st1 p unfolding r2 by (rule sim_produced)
  from Suc.prems(1) a r1 p r2
  have run: "run_days s2 n1 [(d + 1) + 1..e] (production @ [P]) = (Inr out, s')"
    unfolding days by simp
  have k: "k = nat (e - (d + 1))" using Suc.hyps(2) by simp
  from Suc.hyps(1) [OF k run st2] le show ?case by (simp add: max_def)
qed

text \<open>
  A full run that returns has gone through states of the simulation only, and
  ends on the day after the last simulated day.
\<close>

lemma planner_call_sim_state:
  assumes "Projects_Planner_init quad year_of fday per raw kw = Inr s"
    and "planner_call s = (Inr production, s')"
  shows "sim_state (max 1 per) s'"
proof -
  have st: "sim_state 0 s" using assms(1) by (rule sim_built)
  obtain r1 s1 where o: "projects_ordering s = (r1, s1)" by (cases "projects_ordering s")
  from assms(2) o obtain u where r1: "r1 = Inr u" by (cases r1) (auto simp: planner_call_def)
  have st1: "sim_state 0 s1" using st o by (rule sim_ordered)
  obtain r2 s2 where e: "add_early s1 (projects_sequence s1) 0 = (r2, s2)"
    by (cases "add_early s1 (projects_sequence s1) 0")
  from assms(2) o r1 e obtain n where r2: "r2 = Inr n"
    by (cases r2) (auto simp: planner_call_def)
  have st2: "sim_state 0 s2" using e st1 by (rule add_early_sim_state)
  obtain r3 s3 where p: "project_production s2 0 = (r3, s3)"
    by (cases "project_production s2 0")
  from assms(2) o r1 e r2 p obtain P where r3: "r3 = Inr P"
    by (cases r3) (auto simp: planner_call_def)
  have st3: "sim_state (0 + 1) s3" using st2 p unfolding r3 by (rule sim_produced)
  from assms(2) o r1 e r2 p r3
  have run: "run_days s3 n [0 + 1..period s3 - 1] [P] = (Inr production, s')"
    by (simp add: planner_call_def)
  have "period s3 = per"
    using ordering_period [OF o] add_early_period [OF e] production_period [OF p]
      init_used [OF assms(1)] by simp
  with run_days_sim_state [OF run st3] show ?thesis by simp
qed

end
